theory Spec2Isabelle
  imports Main "HOL-Library.Sublist"
begin

section \<open>The task registry (registry.py)\<close>

subsection \<open>Data model\<close>

text \<open>
  \<^verbatim>\<open>class TaskStatus(str, Enum)\<close>: five members, each with its wire string
  (\<^verbatim>\<open>status.value\<close>).
\<close>

datatype TaskStatus = PENDING | CLAIMED | IN_PROGRESS | REVIEW | MERGED

fun status_value :: "TaskStatus \<Rightarrow> string" where
  "status_value PENDING = ''pending''"
| "status_value CLAIMED = ''claimed''"
| "status_value IN_PROGRESS = ''in_progress''"
| "status_value REVIEW = ''review''"
| "status_value MERGED = ''merged''"

text \<open>
  \<^verbatim>\<open>@dataclass class Task\<close>. The field \<^verbatim>\<open>id\<close> is named \<open>task_id\<close> here
  (\<open>id\<close> is HOL's identity function). \<^verbatim>\<open>Optional[str]\<close> is \<open>string option\<close>.
  Strings are lists of bytes; the operations below only compare strings, test prefixes and
  strip the ASCII character \<^verbatim>\<open>/\<close>, which agree on code points and on their UTF-8 bytes.
\<close>

record Task =
  task_id :: string
  description :: string
  status :: TaskStatus
  claimed_by :: "string option"
  branch :: "string option"
  files :: "string list"
  depends_on :: "string list"

record Registry =
  goal :: string
  tasks :: "Task list"

subsection \<open>Queries\<close>

text \<open>
  \<^verbatim>\<open>Registry.get_task\<close>: the loop returns the first task whose id matches, None when the
  loop ends without a match.
\<close>

fun get_task_loop :: "Task list \<Rightarrow> string \<Rightarrow> Task option" where
  "get_task_loop [] tid = None"
| "get_task_loop (task # rest) tid =
     (if task_id task = tid then Some task else get_task_loop rest tid)"

definition get_task :: "Registry \<Rightarrow> string \<Rightarrow> Task option" where
  "get_task reg tid = get_task_loop (tasks reg) tid"

text \<open>
  \<^verbatim>\<open>Registry.check_dependencies\<close>: the loop over \<^verbatim>\<open>task.depends_on\<close> with the
  accumulator \<^verbatim>\<open>unmet\<close>, appended to at the end.
\<close>

fun check_dependencies_loop :: "Registry \<Rightarrow> string list \<Rightarrow> string list \<Rightarrow> string list" where
  "check_dependencies_loop reg [] unmet = unmet"
| "check_dependencies_loop reg (dep_id # rest) unmet =
     (case get_task reg dep_id of
        None \<Rightarrow> check_dependencies_loop reg rest (unmet @ [dep_id @ '' (not found)''])
      | Some dep \<Rightarrow>
          if status dep \<noteq> MERGED
          then check_dependencies_loop reg rest
                 (unmet @ [dep_id @ '' (status: '' @ status_value (status dep) @ '')''])
          else check_dependencies_loop reg rest unmet)"

definition check_dependencies :: "Registry \<Rightarrow> Task \<Rightarrow> string list" where
  "check_dependencies reg task = check_dependencies_loop reg (depends_on task) []"

text \<open>
  \<^verbatim>\<open>str.rstrip(chars)\<close> removes every trailing character that occurs in \<^verbatim>\<open>chars\<close>;
  \<^verbatim>\<open>s.startswith(p)\<close> compares \<^verbatim>\<open>p\<close> with the front of \<^verbatim>\<open>s\<close>.
\<close>

definition rstrip :: "string \<Rightarrow> string \<Rightarrow> string" where
  "rstrip s chars = rev (dropWhile (\<lambda>c. c \<in> set chars) (rev s))"

fun startswith :: "string \<Rightarrow> string \<Rightarrow> bool" where
  "startswith s [] = True"
| "startswith [] (p # ps) = False"
| "startswith (c # cs) (p # ps) = (c = p \<and> startswith cs ps)"

text \<open>\<^verbatim>\<open>Registry._paths_overlap\<close>.\<close>

definition paths_overlap :: "string \<Rightarrow> string \<Rightarrow> bool" where
  "paths_overlap path1 path2 =
     (let p1 = rstrip path1 ''/'';
          p2 = rstrip path2 ''/''
      in startswith p1 p2 \<or> startswith p2 p1 \<or> p1 = p2)"

text \<open>
  \<^verbatim>\<open>Registry.check_file_conflicts\<close>: three nested loops over one accumulator
  \<^verbatim>\<open>conflicts\<close>. The two \<^verbatim>\<open>continue\<close> statements skip a task with the id of
  \<^verbatim>\<open>task\<close> and a task whose status is not active.
\<close>

definition active_statuses :: "TaskStatus set" where
  "active_statuses = {CLAIMED, IN_PROGRESS, REVIEW}"

fun other_files_loop ::
  "string \<Rightarrow> Task \<Rightarrow> string list \<Rightarrow> (string \<times> Task) list \<Rightarrow> (string \<times> Task) list" where
  "other_files_loop task_file other [] conflicts = conflicts"
| "other_files_loop task_file other (other_file # rest) conflicts =
     other_files_loop task_file other rest
       (if paths_overlap task_file other_file then conflicts @ [(task_file, other)]
        else conflicts)"

fun task_files_loop ::
  "Task \<Rightarrow> string list \<Rightarrow> (string \<times> Task) list \<Rightarrow> (string \<times> Task) list" where
  "task_files_loop other [] conflicts = conflicts"
| "task_files_loop other (task_file # rest) conflicts =
     task_files_loop other rest (other_files_loop task_file other (files other) conflicts)"

fun other_tasks_loop ::
  "Task \<Rightarrow> Task list \<Rightarrow> (string \<times> Task) list \<Rightarrow> (string \<times> Task) list" where
  "other_tasks_loop task [] conflicts = conflicts"
| "other_tasks_loop task (other # rest) conflicts =
     (if task_id other = task_id task then other_tasks_loop task rest conflicts
      else if status other \<notin> active_statuses then other_tasks_loop task rest conflicts
      else other_tasks_loop task rest (task_files_loop other (files task) conflicts))"

definition check_file_conflicts :: "Registry \<Rightarrow> Task \<Rightarrow> (string \<times> Task) list" where
  "check_file_conflicts reg task = other_tasks_loop task (tasks reg) []"

subsection \<open>The descriptors of the specification\<close>

text \<open>
  What the specification says \<open>checkDependencies\<close> emits for one dependency id: nothing for
  a Merged dependency, one descriptor otherwise.
\<close>

definition dependency_descriptor :: "Registry \<Rightarrow> string \<Rightarrow> string list" where
  "dependency_descriptor reg dep_id =
     (case get_task reg dep_id of
        None \<Rightarrow> [dep_id @ '' (not found)'']
      | Some dep \<Rightarrow>
          if status dep = MERGED then []
          else [dep_id @ '' (status: '' @ status_value (status dep) @ '')''])"

subsection \<open>Example registries\<close>

definition mk_task ::
  "string \<Rightarrow> TaskStatus \<Rightarrow> string option \<Rightarrow> string list \<Rightarrow> string list \<Rightarrow> Task" where
  "mk_task i st owner fs deps =
     \<lparr>task_id = i, description = ''D'', status = st, claimed_by = owner,
      branch = map_option (\<lambda>a. ''agent/'' @ a @ ''/'' @ i) owner,
      files = fs, depends_on = deps\<rparr>"

definition deps_registry :: Registry where
  "deps_registry =
     \<lparr>goal = ''G'',
      tasks = [mk_task ''a'' MERGED (Some ''alice'') [] [],
               mk_task ''b'' CLAIMED (Some ''bob'') [] [],
               mk_task ''c'' PENDING None [] [''a'', ''b'']]\<rparr>"

definition conflict_registry :: Registry where
  "conflict_registry =
     \<lparr>goal = ''G'',
      tasks = [mk_task ''T1'' PENDING None [''src/x''] [],
               mk_task ''T2'' CLAIMED (Some ''bob'') [''src/x/y.py''] [],
               mk_task ''T3'' MERGED (Some ''carol'') [''src/x''] [],
               mk_task ''T4'' REVIEW (Some ''dave'') [] []]\<rparr>"

subsection \<open>The persisted layout\<close>

text \<open>
  The dictionaries that \<^verbatim>\<open>yaml.safe_load\<close> returns for a \<^verbatim>\<open>gastown.yaml\<close> whose values
  have the types the dataclasses declare, and that \<^verbatim>\<open>yaml.dump(..., sort_keys=False)\<close>
  is given. A Python dict keeps its keys in insertion order: a dictionary is the list of its
  entries in that order, and an entry is one of the keys the code reads together with a
  value of the declared type of that key (a string, or a list of strings for
  \<^verbatim>\<open>files\<close> and \<^verbatim>\<open>depends_on\<close>). \<^verbatim>\<open>Task.from_dict\<close> checks no type and stores
  whatever value it finds; a document with a value of another type (a string where a list
  is declared, a number, null) has no counterpart here, and nothing below speaks about such
  a document. A dict holds each key at most once; a lookup takes the first entry of the key.
  The YAML text itself is the library's.
\<close>

datatype task_entry =
    IdEntry string
  | DescriptionEntry string
  | StatusEntry string
  | ClaimedByEntry string
  | BranchEntry string
  | FilesEntry "string list"
  | DependsOnEntry "string list"

type_synonym task_dict = "task_entry list"

datatype doc_entry = GoalEntry string | TasksEntry "task_dict list"

type_synonym registry_doc = "doc_entry list"

fun entry_key :: "task_entry \<Rightarrow> string" where
  "entry_key (IdEntry v) = ''id''"
| "entry_key (DescriptionEntry v) = ''description''"
| "entry_key (StatusEntry v) = ''status''"
| "entry_key (ClaimedByEntry v) = ''claimed_by''"
| "entry_key (BranchEntry v) = ''branch''"
| "entry_key (FilesEntry v) = ''files''"
| "entry_key (DependsOnEntry v) = ''depends_on''"

fun doc_key :: "doc_entry \<Rightarrow> string" where
  "doc_key (GoalEntry v) = ''goal''"
| "doc_key (TasksEntry v) = ''tasks''"

text \<open>\<^verbatim>\<open>data.get(key)\<close>, one function for each key: \<open>None\<close> when the key is absent.\<close>

fun get_id :: "task_dict \<Rightarrow> string option" where
  "get_id [] = None"
| "get_id (IdEntry v # rest) = Some v"
| "get_id (x # rest) = get_id rest"

fun get_description :: "task_dict \<Rightarrow> string option" where
  "get_description [] = None"
| "get_description (DescriptionEntry v # rest) = Some v"
| "get_description (x # rest) = get_description rest"

fun get_status :: "task_dict \<Rightarrow> string option" where
  "get_status [] = None"
| "get_status (StatusEntry v # rest) = Some v"
| "get_status (x # rest) = get_status rest"

fun get_claimed_by :: "task_dict \<Rightarrow> string option" where
  "get_claimed_by [] = None"
| "get_claimed_by (ClaimedByEntry v # rest) = Some v"
| "get_claimed_by (x # rest) = get_claimed_by rest"

fun get_branch :: "task_dict \<Rightarrow> string option" where
  "get_branch [] = None"
| "get_branch (BranchEntry v # rest) = Some v"
| "get_branch (x # rest) = get_branch rest"

fun get_files :: "task_dict \<Rightarrow> string list option" where
  "get_files [] = None"
| "get_files (FilesEntry v # rest) = Some v"
| "get_files (x # rest) = get_files rest"

fun get_depends_on :: "task_dict \<Rightarrow> string list option" where
  "get_depends_on [] = None"
| "get_depends_on (DependsOnEntry v # rest) = Some v"
| "get_depends_on (x # rest) = get_depends_on rest"

fun get_goal :: "registry_doc \<Rightarrow> string option" where
  "get_goal [] = None"
| "get_goal (GoalEntry v # rest) = Some v"
| "get_goal (x # rest) = get_goal rest"

fun get_tasks :: "registry_doc \<Rightarrow> task_dict list option" where
  "get_tasks [] = None"
| "get_tasks (TasksEntry v # rest) = Some v"
| "get_tasks (x # rest) = get_tasks rest"

text \<open>
  The exceptions of loading: \<^verbatim>\<open>data["id"]\<close> and \<^verbatim>\<open>data["description"]\<close> raise
  KeyError on a missing key, \<^verbatim>\<open>TaskStatus(value)\<close> raises ValueError on a string that
  is the value of no member.
\<close>

datatype load_error = KeyError string | ValueError string

text \<open>
  \<^verbatim>\<open>Task.to_dict\<close>: the three entries always written, then each of the other four when
  its field is true in Python's sense (not None, not the empty string, not the empty list).
\<close>

definition to_dict :: "Task \<Rightarrow> task_dict" where
  "to_dict t =
     [IdEntry (task_id t), DescriptionEntry (description t),
      StatusEntry (status_value (status t))]
     @ (case claimed_by t of
          None \<Rightarrow> []
        | Some c \<Rightarrow> if c \<noteq> [] then [ClaimedByEntry c] else [])
     @ (case branch t of
          None \<Rightarrow> []
        | Some b \<Rightarrow> if b \<noteq> [] then [BranchEntry b] else [])
     @ (if files t \<noteq> [] then [FilesEntry (files t)] else [])
     @ (if depends_on t \<noteq> [] then [DependsOnEntry (depends_on t)] else [])"

text \<open>\<^verbatim>\<open>TaskStatus(value)\<close>: the member with that wire string, if there is one.\<close>

definition parse_status :: "string \<Rightarrow> TaskStatus option" where
  "parse_status s =
     (if s = ''pending'' then Some PENDING
      else if s = ''claimed'' then Some CLAIMED
      else if s = ''in_progress'' then Some IN_PROGRESS
      else if s = ''review'' then Some REVIEW
      else if s = ''merged'' then Some MERGED
      else None)"

text \<open>
  \<^verbatim>\<open>Task.from_dict\<close>: the keyword arguments are evaluated in the order written, so the
  first failing one decides the exception; \<^verbatim>\<open>data.get("status", "pending")\<close>,
  \<^verbatim>\<open>data.get("files", [])\<close> and \<^verbatim>\<open>data.get("depends_on", [])\<close> take their default
  when the key is absent.
\<close>

definition from_dict :: "task_dict \<Rightarrow> load_error + Task" where
  "from_dict data =
     (case get_id data of
        None \<Rightarrow> Inl (KeyError ''id'')
      | Some i \<Rightarrow>
     (case get_description data of
        None \<Rightarrow> Inl (KeyError ''description'')
      | Some d \<Rightarrow>
     (let s = (case get_status data of None \<Rightarrow> ''pending'' | Some v \<Rightarrow> v) in
      case parse_status s of
        None \<Rightarrow> Inl (ValueError s)
      | Some st \<Rightarrow>
          Inr \<lparr>task_id = i, description = d, status = st,
               claimed_by = get_claimed_by data, branch = get_branch data,
               files = (case get_files data of None \<Rightarrow> [] | Some fs \<Rightarrow> fs),
               depends_on = (case get_depends_on data of None \<Rightarrow> [] | Some ds \<Rightarrow> ds)\<rparr>)))"

text \<open>\<^verbatim>\<open>[Task.from_dict(t) for t in ...]\<close>: the first exception ends the comprehension.\<close>

fun from_dicts :: "task_dict list \<Rightarrow> load_error + Task list" where
  "from_dicts [] = Inr []"
| "from_dicts (d # ds) =
     (case from_dict d of
        Inl err \<Rightarrow> Inl err
      | Inr t \<Rightarrow> (case from_dicts ds of Inl err \<Rightarrow> Inl err | Inr ts \<Rightarrow> Inr (t # ts)))"

text \<open>
  The document \<^verbatim>\<open>Registry.save\<close> hands to \<^verbatim>\<open>yaml.dump\<close>, and the registry
  \<^verbatim>\<open>Registry.load\<close> builds from the document \<^verbatim>\<open>yaml.safe_load\<close> returns
  (\<^verbatim>\<open>data.get("goal", "")\<close>, \<^verbatim>\<open>data.get("tasks", [])\<close>; the arguments of
  \<^verbatim>\<open>cls(...)\<close> are evaluated before the registry is built).
\<close>

definition save_data :: "Registry \<Rightarrow> registry_doc" where
  "save_data reg = [GoalEntry (goal reg), TasksEntry (map to_dict (tasks reg))]"

definition load_data :: "registry_doc \<Rightarrow> load_error + Registry" where
  "load_data data =
     (let g = (case get_goal data of None \<Rightarrow> '''' | Some v \<Rightarrow> v) in
      case from_dicts (case get_tasks data of None \<Rightarrow> [] | Some ds \<Rightarrow> ds) of
        Inl err \<Rightarrow> Inl err
      | Inr ts \<Rightarrow> Inr \<lparr>goal = g, tasks = ts\<rparr>)"

text \<open>
  The keys of a task dictionary as the specification lists them: the three that are always
  written, then each optional key exactly when its field is not empty.
\<close>

definition written_keys :: "Task \<Rightarrow> string list" where
  "written_keys t =
     [''id'', ''description'', ''status'']
     @ (if claimed_by t = None \<or> claimed_by t = Some '''' then [] else [''claimed_by''])
     @ (if branch t = None \<or> branch t = Some '''' then [] else [''branch''])
     @ (if files t = [] then [] else [''files''])
     @ (if depends_on t = [] then [] else [''depends_on''])"

definition field_order :: "string list" where
  "field_order =
     [''id'', ''description'', ''status'', ''claimed_by'', ''branch'', ''files'', ''depends_on'']"

definition empty_owner_registry :: Registry where
  "empty_owner_registry =
     \<lparr>goal = ''G'',
      tasks = [\<lparr>task_id = ''t1'', description = ''D'', status = PENDING,
                claimed_by = Some '''', branch = None, files = [], depends_on = []\<rparr>]\<rparr>"

text \<open>
  What a task reads back as after \<^verbatim>\<open>to_dict\<close> and \<^verbatim>\<open>from_dict\<close>: the tests
  \<^verbatim>\<open>if self.claimed_by:\<close> and \<^verbatim>\<open>if self.branch:\<close> are false for the empty string as
  for None, so an empty string is not written and is read back as None.
\<close>

definition read_back :: "Task \<Rightarrow> Task" where
  "read_back t =
     t\<lparr>claimed_by := (if claimed_by t = Some '''' then None else claimed_by t),
       branch := (if branch t = Some '''' then None else branch t)\<rparr>"

section \<open>The collaborators (agent.py, gitops.py)\<close>

text \<open>
  \<^verbatim>\<open>@dataclass class PRInfo\<close>; the fields carry the prefix \<open>pr_\<close> (\<open>branch\<close> is a field
  of Task).
\<close>

record PRInfo =
  pr_number :: int
  pr_title :: string
  pr_branch :: string
  pr_author :: string
  pr_url :: string

text \<open>
  Every function of gitops.py runs \<^verbatim>\<open>git\<close> or \<^verbatim>\<open>gh\<close> in a subprocess and either
  returns or raises GitError. The environment gives, for each call the commands make, what
  the subprocess answers: a value (\<open>None\<close> when GitError is raised) or whether the call
  returns. Within one command no call is made twice with the same arguments, so an answer
  per argument is enough. Exceptions other than GitError (a missing executable, output of
  the tools that does not parse) are outside the model. \<open>agent_config\<close> is the name in
  \<^verbatim>\<open>~/.gastown/config.yaml\<close>, \<open>None\<close> when the file does not exist
  (\<^verbatim>\<open>AgentConfig.load\<close>).
\<close>

record env =
  agent_config :: "string option"
  repo_root_found :: bool
  rev_parse_verify :: "string \<Rightarrow> bool"
  current_branch :: "string option"
  remote_url :: "string option"
  switch_branch_ok :: "string \<Rightarrow> bool"
  create_branch_ok :: "string \<Rightarrow> bool"
  stage_file_ok :: "string \<Rightarrow> bool"
  commit_ok :: "string \<Rightarrow> bool"
  pull_ok :: bool
  push_ok :: "string \<Rightarrow> bool \<Rightarrow> bool"
  fetch_ok :: bool
  is_rebased :: "string \<Rightarrow> bool option"
  create_pr :: "string \<Rightarrow> string \<Rightarrow> string \<Rightarrow> PRInfo option"
  list_prs :: "string \<Rightarrow> PRInfo list option"
  approve_pr_ok :: "int \<Rightarrow> bool"
  merge_pr_ok :: "int \<Rightarrow> bool"

text \<open>
  \<^verbatim>\<open>branch_exists\<close>, \<^verbatim>\<open>get_default_branch\<close> (both run
  \<^verbatim>\<open>git rev-parse --verify\<close> and catch GitError) and \<^verbatim>\<open>has_remote\<close>.
\<close>

definition branch_exists :: "env \<Rightarrow> string \<Rightarrow> bool" where
  "branch_exists e b = rev_parse_verify e b"

definition get_default_branch :: "env \<Rightarrow> string" where
  "get_default_branch e = (if rev_parse_verify e ''main'' then ''main'' else ''master'')"

definition has_remote :: "env \<Rightarrow> bool" where
  "has_remote e = (remote_url e \<noteq> None)"

text \<open>
  What a command changes: the content of \<^verbatim>\<open>gastown.yaml\<close> (\<open>None\<close> when there is no
  such file), written by \<^verbatim>\<open>Registry.save\<close> only, and the log of the calls to
  \<^verbatim>\<open>git\<close> and \<^verbatim>\<open>gh\<close> that changed something and returned. What git itself does to
  the working tree is not modelled.
\<close>

datatype git_effect =
    Switched string
  | Pulled
  | Fetched
  | BranchCreated string
  | Staged string
  | Committed string
  | Pushed string bool
  | PRCreated string string string
  | PRApproved int
  | PRMerged int

record world =
  registry_file :: "registry_doc option"
  git_log :: "git_effect list"

definition log_effect :: "git_effect \<Rightarrow> world \<Rightarrow> world" where
  "log_effect x w = w\<lparr>git_log := git_log w @ [x]\<rparr>"

definition save :: "Registry \<Rightarrow> world \<Rightarrow> world" where
  "save reg w = w\<lparr>registry_file := Some (save_data reg)\<rparr>"

section \<open>The commands (cli.py)\<close>

text \<open>
  How a command ends: it returns (exit status 0), it reports an error and calls
  \<^verbatim>\<open>sys.exit(1)\<close>, or an exception nobody catches ends the process.
\<close>

datatype failure =
    NotInGitRepository
  | RegistryNotFound
  | TaskNotFound string
  | NotPending TaskStatus
  | UnmetDependencies "string list"
  | FileConflicts "(string \<times> Task) list"
  | BranchAlreadyExists string
  | OnDefaultBranch string
  | NoTaskForBranch string
  | ClaimedByAnother "string option"
  | NotRebased
  | PushFailed
  | NotInReview TaskStatus
  | SelfApproval
  | NoMatchingPR
  | MergeFailed

datatype uncaught = AgentNotInitialized | GitError | LoadFailed load_error

datatype outcome = Completed | Exit1 failure | Uncaught uncaught

text \<open>
  \<^verbatim>\<open>get_context\<close>: GitError of \<^verbatim>\<open>get_repo_root\<close> and FileNotFoundError of
  \<^verbatim>\<open>Registry.load\<close> are caught and reported; any other exception of loading is not.
\<close>

definition get_context :: "env \<Rightarrow> world \<Rightarrow> outcome + Registry" where
  "get_context e w =
     (if \<not> repo_root_found e then Inl (Exit1 NotInGitRepository)
      else case registry_file w of
             None \<Rightarrow> Inl (Exit1 RegistryNotFound)
           | Some data \<Rightarrow>
               (case load_data data of
                  Inl err \<Rightarrow> Inl (Uncaught (LoadFailed err))
                | Inr reg \<Rightarrow> Inr reg))"

text \<open>
  A command finds a Task object in \<^verbatim>\<open>registry.tasks\<close> and assigns to its fields. The
  objects of a loaded registry are distinct (\<^verbatim>\<open>from_dict\<close> builds one per entry), so
  the assignment changes the first entry the search accepts and no other.
\<close>

fun update_first :: "(Task \<Rightarrow> bool) \<Rightarrow> (Task \<Rightarrow> Task) \<Rightarrow> Task list \<Rightarrow> Task list" where
  "update_first P f [] = []"
| "update_first P f (t # ts) = (if P t then f t # ts else t # update_first P f ts)"

definition assign_task :: "Registry \<Rightarrow> (Task \<Rightarrow> bool) \<Rightarrow> (Task \<Rightarrow> Task) \<Rightarrow> Registry" where
  "assign_task reg P f = reg\<lparr>tasks := update_first P f (tasks reg)\<rparr>"

subsection \<open>claim\<close>

definition claim_branch_name :: "string \<Rightarrow> string \<Rightarrow> string" where
  "claim_branch_name agent tid = ''agent/'' @ agent @ ''/'' @ tid"

definition claimed :: "string \<Rightarrow> string \<Rightarrow> Task \<Rightarrow> Task" where
  "claimed agent branch_name task =
     task\<lparr>status := CLAIMED, claimed_by := Some agent, branch := Some branch_name\<rparr>"

definition claim :: "env \<Rightarrow> world \<Rightarrow> string \<Rightarrow> bool \<Rightarrow> outcome \<times> world" where
  "claim e w tid force =
     (case agent_config e of
        None \<Rightarrow> (Uncaught AgentNotInitialized, w)
      | Some agent \<Rightarrow>
     (case get_context e w of
        Inl out \<Rightarrow> (out, w)
      | Inr registry \<Rightarrow>
     (case get_task registry tid of
        None \<Rightarrow> (Exit1 (TaskNotFound tid), w)
      | Some task \<Rightarrow>
     if status task \<noteq> PENDING then (Exit1 (NotPending (status task)), w)
     else let unmet = check_dependencies registry task in
     if unmet \<noteq> [] \<and> \<not> force then (Exit1 (UnmetDependencies unmet), w)
     else let conflicts = check_file_conflicts registry task in
     if conflicts \<noteq> [] \<and> \<not> force then (Exit1 (FileConflicts conflicts), w)
     else let branch_name = claim_branch_name agent tid in
     if branch_exists e branch_name then (Exit1 (BranchAlreadyExists branch_name), w)
     else let default_branch = get_default_branch e in
     if \<not> switch_branch_ok e default_branch then (Uncaught GitError, w)
     else let w1 = log_effect (Switched default_branch) w;
              w2 = (if has_remote e \<and> pull_ok e then log_effect Pulled w1 else w1) in
     if \<not> create_branch_ok e branch_name then (Uncaught GitError, w2)
     else let w3 = log_effect (BranchCreated branch_name) w2;
              registry' = assign_task registry (\<lambda>t. task_id t = tid) (claimed agent branch_name);
              w4 = save registry' w3 in
     if \<not> stage_file_ok e ''gastown.yaml'' then (Uncaught GitError, w4)
     else let w5 = log_effect (Staged ''gastown.yaml'') w4 in
     if \<not> commit_ok e (''[gastown] Claim task: '' @ tid) then (Uncaught GitError, w5)
     else (Completed, log_effect (Committed (''[gastown] Claim task: '' @ tid)) w5))))"

subsection \<open>submit\<close>

text \<open>The loop that finds the task of the current branch, with its \<^verbatim>\<open>break\<close>.\<close>

fun find_task_for_branch :: "Task list \<Rightarrow> string \<Rightarrow> Task option" where
  "find_task_for_branch [] b = None"
| "find_task_for_branch (t # ts) b =
     (if branch t = Some b then Some t else find_task_for_branch ts b)"

fun join :: "string \<Rightarrow> string list \<Rightarrow> string" where
  "join sep [] = ''''"
| "join sep [x] = x"
| "join sep (x # y # ys) = x @ sep @ join sep (y # ys)"

definition newline :: string where
  "newline = [CHR 0x0A]"

definition default_pr_title :: "Task \<Rightarrow> string" where
  "default_pr_title task = task_id task @ '': '' @ description task"

definition default_pr_body :: "Task \<Rightarrow> string \<Rightarrow> string" where
  "default_pr_body task agent =
     ''## Task'' @ newline @ description task @ newline @ newline
     @ ''## Files affected'' @ newline
     @ (if files task \<noteq> [] then join newline (map (\<lambda>f. ''- '' @ f) (files task))
        else ''Not specified'') @ newline @ newline
     @ ''---'' @ newline @ ''Submitted by agent: '' @ agent @ newline"

text \<open>\<^verbatim>\<open>value or default\<close> for an optional string: None and the empty string are false.\<close>

definition or_default :: "string option \<Rightarrow> string \<Rightarrow> string" where
  "or_default v d = (case v of None \<Rightarrow> d | Some s \<Rightarrow> if s \<noteq> [] then s else d)"

definition submit :: "env \<Rightarrow> world \<Rightarrow> string option \<Rightarrow> string option \<Rightarrow> outcome \<times> world" where
  "submit e w title body =
     (case agent_config e of
        None \<Rightarrow> (Uncaught AgentNotInitialized, w)
      | Some agent \<Rightarrow>
     (case get_context e w of
        Inl out \<Rightarrow> (out, w)
      | Inr registry \<Rightarrow>
     (case current_branch e of
        None \<Rightarrow> (Uncaught GitError, w)
      | Some cur \<Rightarrow>
     let default_branch = get_default_branch e in
     if cur = default_branch then (Exit1 (OnDefaultBranch default_branch), w)
     else
     (case find_task_for_branch (tasks registry) cur of
        None \<Rightarrow> (Exit1 (NoTaskForBranch cur), w)
      | Some task \<Rightarrow>
     if claimed_by task \<noteq> Some agent then (Exit1 (ClaimedByAnother (claimed_by task)), w)
     else if has_remote e \<and> \<not> fetch_ok e then (Uncaught GitError, w)
     else let w1 = (if has_remote e then log_effect Fetched w else w) in
     if has_remote e \<and> is_rebased e (''origin/'' @ default_branch) = None
     then (Uncaught GitError, w1)
     else if has_remote e \<and> is_rebased e (''origin/'' @ default_branch) = Some False
     then (Exit1 NotRebased, w1)
     else if \<not> push_ok e cur True then (Exit1 PushFailed, w1)
     else let w2 = log_effect (Pushed cur True) w1;
              pr_title = or_default title (default_pr_title task);
              pr_body = or_default body (default_pr_body task agent);
              w3 = (case create_pr e pr_title pr_body default_branch of
                      None \<Rightarrow> w2
                    | Some pr \<Rightarrow> log_effect (PRCreated pr_title pr_body default_branch) w2);
              registry' = assign_task registry (\<lambda>t. branch t = Some cur)
                            (\<lambda>t. t\<lparr>status := REVIEW\<rparr>);
              w4 = save registry' w3 in
     if \<not> stage_file_ok e ''gastown.yaml'' then (Uncaught GitError, w4)
     else let w5 = log_effect (Staged ''gastown.yaml'') w4;
              msg = ''[gastown] Submit task for review: '' @ task_id task in
     if \<not> commit_ok e msg then (Uncaught GitError, w5)
     else let w6 = log_effect (Committed msg) w5 in
     if \<not> push_ok e cur False then (Uncaught GitError, w6)
     else (Completed, log_effect (Pushed cur False) w6)))))"

subsection \<open>approve and merge\<close>

text \<open>
  The search of the list of open pull requests for the branch of the task: a
  \<^verbatim>\<open>for\<close> loop that stops at the first match (\<^verbatim>\<open>break\<close>) and takes its
  \<^verbatim>\<open>else\<close> branch when there is none. \<^verbatim>\<open>task.branch\<close> is optional, \<^verbatim>\<open>pr.branch\<close>
  is a string.
\<close>

fun find_pr :: "PRInfo list \<Rightarrow> string option \<Rightarrow> PRInfo option" where
  "find_pr [] b = None"
| "find_pr (pr # prs) b = (if Some (pr_branch pr) = b then Some pr else find_pr prs b)"

definition approve :: "env \<Rightarrow> world \<Rightarrow> string \<Rightarrow> outcome \<times> world" where
  "approve e w tid =
     (case agent_config e of
        None \<Rightarrow> (Uncaught AgentNotInitialized, w)
      | Some agent \<Rightarrow>
     (case get_context e w of
        Inl out \<Rightarrow> (out, w)
      | Inr registry \<Rightarrow>
     (case get_task registry tid of
        None \<Rightarrow> (Exit1 (TaskNotFound tid), w)
      | Some task \<Rightarrow>
     if status task \<noteq> REVIEW then (Exit1 (NotInReview (status task)), w)
     else if claimed_by task = Some agent then (Exit1 SelfApproval, w)
     else
     (case list_prs e ''open'' of
        None \<Rightarrow> (Completed, w)
      | Some prs \<Rightarrow>
          (case find_pr prs (branch task) of
             None \<Rightarrow> (Completed, w)
           | Some pr \<Rightarrow>
               if approve_pr_ok e (pr_number pr)
               then (Completed, log_effect (PRApproved (pr_number pr)) w)
               else (Completed, w))))))"

definition merge_task :: "env \<Rightarrow> world \<Rightarrow> string \<Rightarrow> outcome \<times> world" where
  "merge_task e w tid =
     (case agent_config e of
        None \<Rightarrow> (Uncaught AgentNotInitialized, w)
      | Some agent \<Rightarrow>
     (case get_context e w of
        Inl out \<Rightarrow> (out, w)
      | Inr registry \<Rightarrow>
     (case get_task registry tid of
        None \<Rightarrow> (Exit1 (TaskNotFound tid), w)
      | Some task \<Rightarrow>
     if status task \<noteq> REVIEW then (Exit1 (NotInReview (status task)), w)
     else
     (case list_prs e ''open'' of
        None \<Rightarrow> (Exit1 MergeFailed, w)
      | Some prs \<Rightarrow>
     (case find_pr prs (branch task) of
        None \<Rightarrow> (Exit1 NoMatchingPR, w)
      | Some pr \<Rightarrow>
     if \<not> merge_pr_ok e (pr_number pr) then (Exit1 MergeFailed, w)
     else let w1 = log_effect (PRMerged (pr_number pr)) w;
              registry' = assign_task registry (\<lambda>t. task_id t = tid)
                            (\<lambda>t. t\<lparr>status := MERGED\<rparr>);
              w2 = save registry' w1;
              default_branch = get_default_branch e in
     if \<not> switch_branch_ok e default_branch then (Uncaught GitError, w2)
     else let w3 = log_effect (Switched default_branch) w2 in
     if \<not> pull_ok e then (Uncaught GitError, w3)
     else let w4 = log_effect Pulled w3 in
     if \<not> stage_file_ok e ''gastown.yaml'' then (Uncaught GitError, w4)
     else let w5 = log_effect (Staged ''gastown.yaml'') w4;
              msg = ''[gastown] Mark task as merged: '' @ tid in
     if \<not> commit_ok e msg then (Uncaught GitError, w5)
     else let w6 = log_effect (Committed msg) w5 in
     if \<not> push_ok e default_branch False then (Uncaught GitError, w6)
     else (Completed, log_effect (Pushed default_branch False) w6))))))"

subsection \<open>Example environments\<close>

definition example_registry :: "TaskStatus \<Rightarrow> string option \<Rightarrow> Registry" where
  "example_registry st owner = \<lparr>goal = ''G'', tasks = [mk_task ''t1'' st owner [''src/a''] []]\<rparr>"

definition example_world :: "TaskStatus \<Rightarrow> string option \<Rightarrow> world" where
  "example_world st owner =
     \<lparr>registry_file = Some (save_data (example_registry st owner)), git_log = []\<rparr>"

definition example_pr :: PRInfo where
  "example_pr =
     \<lparr>pr_number = 7, pr_title = ''t1: D'', pr_branch = ''agent/alice/t1'',
      pr_author = ''alice'', pr_url = ''https://example.org/pull/7''\<rparr>"

definition example_env :: "string \<Rightarrow> string \<Rightarrow> PRInfo list \<Rightarrow> env" where
  "example_env agent cur prs =
     \<lparr>agent_config = Some agent, repo_root_found = True,
      rev_parse_verify = (\<lambda>b. b = ''main''), current_branch = Some cur,
      remote_url = None, switch_branch_ok = (\<lambda>b. True), create_branch_ok = (\<lambda>b. True),
      stage_file_ok = (\<lambda>p. True), commit_ok = (\<lambda>m. True), pull_ok = True,
      push_ok = (\<lambda>b u. True), fetch_ok = True, is_rebased = (\<lambda>b. Some True),
      create_pr = (\<lambda>t b base. None), list_prs = (\<lambda>state. Some prs),
      approve_pr_ok = (\<lambda>n. True), merge_pr_ok = (\<lambda>n. True)\<rparr>"

definition branch_taken_env :: env where
  "branch_taken_env = (example_env ''alice'' ''main'' [])\<lparr>rev_parse_verify := (\<lambda>b. True)\<rparr>"

definition merge_refused_env :: env where
  "merge_refused_env = (example_env ''bob'' ''main'' [example_pr])\<lparr>merge_pr_ok := (\<lambda>n. False)\<rparr>"

text \<open>
  The same environment with a remote \<open>origin\<close>: the fetch succeeds and the branch is
  rebased onto the remote tip of the default branch. \<open>stage_refused_env\<close> is that
  environment with a \<^verbatim>\<open>git add\<close> that fails.
\<close>

definition remote_env :: "string \<Rightarrow> string \<Rightarrow> PRInfo list \<Rightarrow> env" where
  "remote_env agent cur prs =
     (example_env agent cur prs)\<lparr>remote_url := Some ''git@example.org:team/repo.git''\<rparr>"

definition stage_refused_env :: env where
  "stage_refused_env =
     (remote_env ''alice'' ''agent/alice/t1'' [])\<lparr>stage_file_ok := (\<lambda>p. False)\<rparr>"

subsection \<open>The order of the statuses\<close>

text \<open>
  The position of a status along Pending, Claimed, InProgress, Review, Merged, and the
  relation "no task of the first registry has a later status than it has in the second".
\<close>

fun status_rank :: "TaskStatus \<Rightarrow> nat" where
  "status_rank PENDING = 0"
| "status_rank CLAIMED = 1"
| "status_rank IN_PROGRESS = 2"
| "status_rank REVIEW = 3"
| "status_rank MERGED = 4"

definition never_backward :: "Registry \<Rightarrow> Registry \<Rightarrow> bool" where
  "never_backward reg reg' =
     list_all2 (\<lambda>t t'. task_id t = task_id t' \<and> status_rank (status t) \<le> status_rank (status t'))
       (tasks reg) (tasks reg')"

text \<open>The log entries that record a created pull request.\<close>

fun is_pr_created :: "git_effect \<Rightarrow> bool" where
  "is_pr_created (PRCreated t b base) = True"
| "is_pr_created x = False"

section \<open>Properties of the registry queries\<close>

subsection \<open>Dependencies\<close>

lemma check_dependencies_loop_eq:
  "check_dependencies_loop reg deps unmet =
     unmet @ concat (map (dependency_descriptor reg) deps)"
  by (induction deps arbitrary: unmet)
     (auto simp: dependency_descriptor_def split: option.splits)

lemma dependency_descriptor_empty:
  "dependency_descriptor reg d = [] \<longleftrightarrow> (\<exists>dep. get_task reg d = Some dep \<and> status dep = MERGED)"
  by (auto simp: dependency_descriptor_def split: option.splits)

text \<open>
  C3. \<open>check_dependencies\<close> returns, in \<open>depends_on\<close> order, the descriptor of each
  dependency id: \<open><id> (not found)\<close> when no task has that id, \<open><id> (status: <status>)\<close>
  when the task found is not Merged, nothing when it is Merged. The result is empty exactly
  when every dependency id resolves to a Merged task; an empty \<open>depends_on\<close> gives the empty
  list.
\<close>

theorem check_dependencies_descriptors:
  "check_dependencies reg task = concat (map (dependency_descriptor reg) (depends_on task))
   \<and> (check_dependencies reg task = [] \<longleftrightarrow>
        (\<forall>d \<in> set (depends_on task). \<exists>dep. get_task reg d = Some dep \<and> status dep = MERGED))
   \<and> (depends_on task = [] \<longrightarrow> check_dependencies reg task = [])"
  by (simp add: check_dependencies_def check_dependencies_loop_eq dependency_descriptor_empty)

theorem check_dependencies_descriptors_witness:
  "check_dependencies deps_registry (mk_task ''c'' PENDING None [] [''a'', ''b''])
     = [''b (status: claimed)'']
   \<and> check_dependencies deps_registry (mk_task ''a'' MERGED (Some ''alice'') [] []) = []"
  using check_dependencies_descriptors
          [of deps_registry "mk_task ''c'' PENDING None [] [''a'', ''b'']"]
        check_dependencies_descriptors
          [of deps_registry "mk_task ''a'' MERGED (Some ''alice'') [] []"]
  by (simp add: deps_registry_def mk_task_def dependency_descriptor_def get_task_def)

subsection \<open>Path overlap\<close>

lemma startswith_prefix: "startswith s p \<longleftrightarrow> prefix p s"
  by (induction s p rule: startswith.induct) auto

lemma rstrip_decompose:
  "\<exists>n. s = rstrip s [c] @ replicate n c"
proof -
  have "rev s = takeWhile (\<lambda>x. x = c) (rev s) @ dropWhile (\<lambda>x. x = c) (rev s)"
    by simp
  moreover have "takeWhile (\<lambda>x. x = c) (rev s) = replicate (length (takeWhile (\<lambda>x. x = c) (rev s))) c"
    by (metis (mono_tags, lifting) replicate_length_same set_takeWhileD)
  ultimately have "rev s = replicate (length (takeWhile (\<lambda>x. x = c) (rev s))) c @ dropWhile (\<lambda>x. x = c) (rev s)"
    by simp
  then have "s = rev (dropWhile (\<lambda>x. x = c) (rev s)) @ replicate (length (takeWhile (\<lambda>x. x = c) (rev s))) c"
    by (metis rev_append rev_replicate rev_rev_ident)
  then show ?thesis by (auto simp: rstrip_def)
qed

lemma rstrip_no_trailing: "\<not> suffix [c] (rstrip s [c])"
proof -
  have "\<not> prefix [c] (dropWhile (\<lambda>x. x = c) (rev s))"
    by (metis (mono_tags, lifting) dropWhile_eq_Nil_conv hd_dropWhile prefix_Cons list.sel(1) prefix_Nil not_Cons_self2 prefixE append_Cons)
  then show ?thesis
    by (simp add: rstrip_def suffix_to_prefix)
qed

lemma dropWhile_replicate_same:
  "dropWhile (\<lambda>x. x = c) (replicate n c @ ys) = dropWhile (\<lambda>x. x = c) ys"
  by (induction n) simp_all

lemma rstrip_unique:
  assumes "s = a @ replicate n c" "\<not> suffix [c] a"
  shows "rstrip s [c] = a"
proof -
  have "rev s = replicate n c @ rev a" using assms(1) by simp
  then have "dropWhile (\<lambda>x. x = c) (rev s) = dropWhile (\<lambda>x. x = c) (rev a)"
    by (simp add: dropWhile_replicate_same)
  moreover have "dropWhile (\<lambda>x. x = c) (rev a) = rev a"
    using assms(2) by (cases "rev a") (auto simp: suffix_to_prefix)
  ultimately show ?thesis by (simp add: rstrip_def)
qed

text \<open>
  C4. Two paths overlap exactly when, with all trailing slashes removed from both, one is a
  prefix of the other (equality included). The stripped form of a path is the part \<open>p\<close>
  with \<open>path = p @ replicate n CHR ''/''\<close> that does not itself end in a slash. The
  comparison is on characters, not on path segments: \<open>src/auth\<close> overlaps \<open>src/auth2\<close>.
\<close>

theorem paths_overlap_iff:
  "(paths_overlap path1 path2 \<longleftrightarrow>
      (\<exists>p1 p2 m n. path1 = p1 @ replicate m CHR ''/'' \<and> path2 = p2 @ replicate n CHR ''/''
          \<and> \<not> suffix ''/'' p1 \<and> \<not> suffix ''/'' p2 \<and> (prefix p1 p2 \<or> prefix p2 p1)))
   \<and> paths_overlap ''src/auth'' ''src/auth2''"
proof
  show "paths_overlap path1 path2 \<longleftrightarrow>
      (\<exists>p1 p2 m n. path1 = p1 @ replicate m CHR ''/'' \<and> path2 = p2 @ replicate n CHR ''/''
          \<and> \<not> suffix ''/'' p1 \<and> \<not> suffix ''/'' p2 \<and> (prefix p1 p2 \<or> prefix p2 p1))"
    (is "?L \<longleftrightarrow> ?R")
  proof
    assume L: ?L
    obtain m where m: "path1 = rstrip path1 ''/'' @ replicate m CHR ''/''"
      using rstrip_decompose by blast
    obtain n where n: "path2 = rstrip path2 ''/'' @ replicate n CHR ''/''"
      using rstrip_decompose by blast
    from L have "prefix (rstrip path1 ''/'') (rstrip path2 ''/'')
        \<or> prefix (rstrip path2 ''/'') (rstrip path1 ''/'')"
      by (auto simp: paths_overlap_def Let_def startswith_prefix)
    with m n show ?R
      using rstrip_no_trailing by blast
  next
    assume ?R
    then obtain p1 p2 m n where
      d: "path1 = p1 @ replicate m CHR ''/''" "path2 = p2 @ replicate n CHR ''/''"
         "\<not> suffix ''/'' p1" "\<not> suffix ''/'' p2" and pre: "prefix p1 p2 \<or> prefix p2 p1"
      by blast
    have "rstrip path1 ''/'' = p1" "rstrip path2 ''/'' = p2"
      using d by (simp_all add: rstrip_unique)
    with pre show ?L
      by (auto simp: paths_overlap_def Let_def startswith_prefix)
  qed
next
  show "paths_overlap ''src/auth'' ''src/auth2''"
    by (simp add: paths_overlap_def rstrip_def)
qed

subsection \<open>File conflicts\<close>

lemma other_files_loop_eq:
  "other_files_loop tf other ofs acc =
     acc @ [(tf, other). other_file \<leftarrow> ofs, paths_overlap tf other_file]"
  by (induction ofs arbitrary: acc) auto

lemma task_files_loop_eq:
  "task_files_loop other tfs acc =
     acc @ [(tf, other). tf \<leftarrow> tfs, other_file \<leftarrow> files other, paths_overlap tf other_file]"
  by (induction tfs arbitrary: acc) (auto simp: other_files_loop_eq)

lemma other_tasks_loop_eq:
  "other_tasks_loop task ts acc =
     acc @ [(tf, other). other \<leftarrow> ts,
              task_id other \<noteq> task_id task \<and> status other \<in> {CLAIMED, IN_PROGRESS, REVIEW},
              tf \<leftarrow> files task, other_file \<leftarrow> files other, paths_overlap tf other_file]"
  by (induction ts arbitrary: acc) (auto simp: task_files_loop_eq active_statuses_def)

lemma check_file_conflicts_eq:
  "check_file_conflicts reg task =
     [(tf, other). other \<leftarrow> tasks reg,
        task_id other \<noteq> task_id task \<and> status other \<in> {CLAIMED, IN_PROGRESS, REVIEW},
        tf \<leftarrow> files task, other_file \<leftarrow> files other, paths_overlap tf other_file]"
  by (simp add: check_file_conflicts_def other_tasks_loop_eq)

lemma check_file_conflicts_member:
  "(f, other) \<in> set (check_file_conflicts reg task) \<longleftrightarrow>
     other \<in> set (tasks reg) \<and> task_id other \<noteq> task_id task
     \<and> status other \<in> {CLAIMED, IN_PROGRESS, REVIEW}
     \<and> f \<in> set (files task) \<and> (\<exists>g \<in> set (files other). paths_overlap f g)"
  unfolding check_file_conflicts_eq by auto

text \<open>
  C5. \<open>check_file_conflicts\<close> emits the pair \<open>(task_file, other)\<close> once for every file of
  another task (another id) with an active status (Claimed, InProgress, Review) that
  overlaps \<open>task_file\<close>, and nothing else. The order is: the other tasks in registry order,
  then the files of the task, then the files of the other task; nothing is deduplicated.
  No pair names a task with the id of \<open>task\<close>, or a Pending or Merged task.
\<close>

theorem check_file_conflicts_pairs:
  "check_file_conflicts reg task =
     [(tf, other). other \<leftarrow> tasks reg,
        task_id other \<noteq> task_id task \<and> status other \<in> {CLAIMED, IN_PROGRESS, REVIEW},
        tf \<leftarrow> files task, other_file \<leftarrow> files other, paths_overlap tf other_file]
   \<and> (\<forall>(f, other) \<in> set (check_file_conflicts reg task).
         task_id other \<noteq> task_id task \<and> status other \<noteq> PENDING \<and> status other \<noteq> MERGED)"
proof
  show "check_file_conflicts reg task =
     [(tf, other). other \<leftarrow> tasks reg,
        task_id other \<noteq> task_id task \<and> status other \<in> {CLAIMED, IN_PROGRESS, REVIEW},
        tf \<leftarrow> files task, other_file \<leftarrow> files other, paths_overlap tf other_file]"
    by (rule check_file_conflicts_eq)
next
  show "\<forall>(f, other) \<in> set (check_file_conflicts reg task).
         task_id other \<noteq> task_id task \<and> status other \<noteq> PENDING \<and> status other \<noteq> MERGED"
    by (auto simp: check_file_conflicts_member)
qed

theorem check_file_conflicts_pairs_witness:
  "check_file_conflicts conflict_registry (mk_task ''T1'' PENDING None [''src/x''] [])
     = [(''src/x'', mk_task ''T2'' CLAIMED (Some ''bob'') [''src/x/y.py''] [])]"
  using check_file_conflicts_pairs
          [of conflict_registry "mk_task ''T1'' PENDING None [''src/x''] []"]
  by (simp add: conflict_registry_def mk_task_def paths_overlap_def rstrip_def)

text \<open>
  C10. A task with no files takes part in no conflict: \<open>check_file_conflicts\<close> on it is
  empty, and it is the other task of no pair, whatever its status.
\<close>

theorem empty_files_no_conflict:
  "(files task = [] \<longrightarrow> check_file_conflicts reg task = [])
   \<and> (files other = [] \<longrightarrow> (f, other) \<notin> set (check_file_conflicts reg task))"
proof
  show "files task = [] \<longrightarrow> check_file_conflicts reg task = []"
  proof
    assume "files task = []"
    then have "(f', other') \<notin> set (check_file_conflicts reg task)" for f' other'
      by (simp add: check_file_conflicts_member)
    then show "check_file_conflicts reg task = []"
      by (cases "check_file_conflicts reg task") auto
  qed
next
  show "files other = [] \<longrightarrow> (f, other) \<notin> set (check_file_conflicts reg task)"
    by (simp add: check_file_conflicts_member)
qed

theorem empty_files_no_conflict_witness:
  "check_file_conflicts conflict_registry (mk_task ''T4'' REVIEW (Some ''dave'') [] []) = []
   \<and> (''src/x'', mk_task ''T4'' REVIEW (Some ''dave'') [] [])
        \<notin> set (check_file_conflicts conflict_registry (mk_task ''T1'' PENDING None [''src/x''] []))"
  using empty_files_no_conflict
          [of "mk_task ''T4'' REVIEW (Some ''dave'') [] []" conflict_registry
              "mk_task ''T4'' REVIEW (Some ''dave'') [] []" "''src/x''"
              ]
        empty_files_no_conflict
          [of "mk_task ''T1'' PENDING None [''src/x''] []" conflict_registry
              "mk_task ''T4'' REVIEW (Some ''dave'') [] []" "''src/x''"]
  by (simp add: mk_task_def)

section \<open>Properties of the persisted layout\<close>

lemma parse_status_value: "parse_status (status_value st) = Some st"
  by (cases st) (simp_all add: parse_status_def)

lemma from_dict_to_dict: "from_dict (to_dict t) = Inr (read_back t)"
  by (cases "claimed_by t"; cases "branch t"; cases "files t"; cases "depends_on t")
     (simp_all add: from_dict_def to_dict_def parse_status_value read_back_def)

lemma from_dicts_to_dict: "from_dicts (map to_dict ts) = Inr (map read_back ts)"
  by (induction ts) (simp_all add: from_dict_to_dict)

lemma load_data_save_data:
  "load_data (save_data reg) = Inr (reg\<lparr>tasks := map read_back (tasks reg)\<rparr>)"
  by (simp add: load_data_def save_data_def from_dicts_to_dict)

lemma read_back_same:
  "claimed_by t \<noteq> Some '''' \<Longrightarrow> branch t \<noteq> Some '''' \<Longrightarrow> read_back t = t"
  by (simp add: read_back_def)

lemma to_dict_keys: "map entry_key (to_dict t) = written_keys t"
  by (cases "claimed_by t"; cases "branch t")
     (simp_all add: to_dict_def written_keys_def)

lemma written_keys_order: "subseq (written_keys t) field_order"
  by (simp add: written_keys_def field_order_def)

text \<open>
  C9, as amended. For every registry in which no task has the empty string as
  \<open>claimed_by\<close> or \<open>branch\<close>, writing the document and reading it back gives the
  registry again, field for field. In general it gives the registry with each empty-string
  \<open>claimed_by\<close> and \<open>branch\<close> replaced by None. The document has the keys goal and tasks;
  every task dictionary has the keys id, description, status, then \<open>claimed_by\<close> and
  \<open>branch\<close> exactly when they are neither None nor the empty string, then \<open>files\<close> and
  \<open>depends_on\<close> exactly when they are not the empty list, in this order.
\<close>

theorem registry_round_trip:
  "((\<forall>t \<in> set (tasks reg). claimed_by t \<noteq> Some '''' \<and> branch t \<noteq> Some '''')
      \<longrightarrow> load_data (save_data reg) = Inr reg)
   \<and> load_data (save_data reg) = Inr (reg\<lparr>tasks := map read_back (tasks reg)\<rparr>)
   \<and> map doc_key (save_data reg) = [''goal'', ''tasks'']
   \<and> (\<forall>t. map entry_key (to_dict t) = written_keys t \<and> subseq (written_keys t) field_order)"
proof (intro conjI impI allI)
  assume "\<forall>t \<in> set (tasks reg). claimed_by t \<noteq> Some '''' \<and> branch t \<noteq> Some ''''"
  then have "map read_back (tasks reg) = tasks reg"
    by (simp add: map_idI read_back_same)
  then show "load_data (save_data reg) = Inr reg"
    by (simp add: load_data_save_data)
next
  show "load_data (save_data reg) = Inr (reg\<lparr>tasks := map read_back (tasks reg)\<rparr>)"
    by (rule load_data_save_data)
next
  show "map doc_key (save_data reg) = [''goal'', ''tasks'']"
    by (simp add: save_data_def)
next
  fix t show "map entry_key (to_dict t) = written_keys t"
    by (rule to_dict_keys)
next
  fix t show "subseq (written_keys t) field_order"
    by (rule written_keys_order)
qed

theorem registry_round_trip_witness:
  "load_data (save_data deps_registry) = Inr deps_registry
   \<and> map entry_key (to_dict (mk_task ''b'' CLAIMED (Some ''bob'') [] [''a'']))
       = [''id'', ''description'', ''status'', ''claimed_by'', ''branch'', ''depends_on'']"
  using registry_round_trip [of deps_registry]
  by (simp add: deps_registry_def mk_task_def written_keys_def)

theorem registry_round_trip_counterexample:
  "load_data (save_data empty_owner_registry) \<noteq> Inr empty_owner_registry"
  by (simp add: load_data_save_data empty_owner_registry_def read_back_def)

section \<open>Properties of the commands\<close>

subsection \<open>claim\<close>

lemma get_task_loop_update_first:
  assumes "\<And>t. task_id (f t) = task_id t"
  shows "get_task_loop (update_first (\<lambda>t. task_id t = tid) f ts) tid
           = map_option f (get_task_loop ts tid)"
  using assms by (induction ts) simp_all

lemma get_task_assign_task:
  assumes "\<And>t. task_id (f t) = task_id t"
  shows "get_task (assign_task reg (\<lambda>t. task_id t = tid) f) tid = map_option f (get_task reg tid)"
  using assms by (simp add: get_task_def assign_task_def get_task_loop_update_first)

lemma get_task_claimed:
  "get_task (assign_task reg (\<lambda>t. task_id t = tid) (claimed agent b)) tid
     = map_option (claimed agent b) (get_task reg tid)"
  by (rule get_task_assign_task) (simp add: claimed_def)

lemma example_context:
  "owner \<noteq> Some '''' \<Longrightarrow>
   get_context (example_env agent cur prs) (example_world st owner)
     = Inr (example_registry st owner)"
  by (cases owner)
     (simp_all add: get_context_def example_env_def example_world_def load_data_save_data
        example_registry_def mk_task_def read_back_def)

lemma get_context_not_completed: "get_context e w \<noteq> Inl Completed"
  by (simp add: get_context_def split: option.splits sum.splits)

lemma claim_without_agent:
  "agent_config e = None \<Longrightarrow> claim e w tid force = (Uncaught AgentNotInitialized, w)"
  by (simp add: claim_def)

lemma claim_without_context:
  "agent_config e = Some agent \<Longrightarrow> get_context e w = Inl out \<Longrightarrow>
   claim e w tid force = (out, w)"
  by (simp add: claim_def)

lemma claim_without_task:
  "agent_config e = Some agent \<Longrightarrow> get_context e w = Inr registry \<Longrightarrow>
   get_task registry tid = None \<Longrightarrow> claim e w tid force = (Exit1 (TaskNotFound tid), w)"
  by (simp add: claim_def)

lemma claim_completed_iff:
  assumes "agent_config e = Some agent" "get_context e w = Inr registry"
    "get_task registry tid = Some task"
  shows "fst (claim e w tid force) = Completed \<longleftrightarrow>
      status task = PENDING
      \<and> (check_dependencies registry task = [] \<or> force)
      \<and> (check_file_conflicts registry task = [] \<or> force)
      \<and> \<not> branch_exists e (claim_branch_name agent tid)
      \<and> switch_branch_ok e (get_default_branch e)
      \<and> create_branch_ok e (claim_branch_name agent tid)
      \<and> stage_file_ok e ''gastown.yaml''
      \<and> commit_ok e (''[gastown] Claim task: '' @ tid)"
  using assms by (simp add: claim_def Let_def)

lemma claim_completed_file:
  assumes "agent_config e = Some agent" "get_context e w = Inr registry"
    "get_task registry tid = Some task" "fst (claim e w tid force) = Completed"
  shows "registry_file (snd (claim e w tid force))
           = Some (save_data (assign_task registry (\<lambda>t. task_id t = tid)
                                (claimed agent (claim_branch_name agent tid))))"
proof -
  have c: "status task = PENDING"
    "check_dependencies registry task = [] \<or> force"
    "check_file_conflicts registry task = [] \<or> force"
    "\<not> branch_exists e (claim_branch_name agent tid)"
    "switch_branch_ok e (get_default_branch e)"
    "create_branch_ok e (claim_branch_name agent tid)"
    "stage_file_ok e ''gastown.yaml''"
    "commit_ok e (''[gastown] Claim task: '' @ tid)"
    using assms claim_completed_iff [of e agent w registry tid task force] by simp_all
  have "\<not> (check_dependencies registry task \<noteq> [] \<and> \<not> force)"
    "\<not> (check_file_conflicts registry task \<noteq> [] \<and> \<not> force)"
    using c(2,3) by simp_all
  with c assms(1-3) show ?thesis
    by (simp add: claim_def Let_def save_def log_effect_def del: de_Morgan_conj not_not)
qed


text \<open>
  C1, as amended. For a \<open>gastown.yaml\<close> whose values have the declared types, \<open>claim\<close>
  completes exactly when the agent is configured and the registry loads, the first task
  with the id is Pending, its dependencies are met or \<open>force\<close> is given, it has no file
  conflict with an active task or \<open>force\<close> is given, the branch \<open>agent/<agent>/<id>\<close> does
  not exist yet, and the git calls of the command that are not guarded (switching to the
  default branch, creating the branch, staging and committing \<open>gastown.yaml\<close>) return.
  Whenever it completes, the registry written has that task with status Claimed,
  \<open>claimed_by\<close> the name of the agent and \<open>branch\<close> exactly \<open>agent/<agent>/<id>\<close>.
\<close>

theorem claim_succeeds_iff:
  "(fst (claim e w tid force) = Completed \<longleftrightarrow>
      (\<exists>agent registry task.
          agent_config e = Some agent \<and> get_context e w = Inr registry
          \<and> get_task registry tid = Some task \<and> status task = PENDING
          \<and> (check_dependencies registry task = [] \<or> force)
          \<and> (check_file_conflicts registry task = [] \<or> force)
          \<and> \<not> branch_exists e (claim_branch_name agent tid)
          \<and> switch_branch_ok e (get_default_branch e)
          \<and> create_branch_ok e (claim_branch_name agent tid)
          \<and> stage_file_ok e ''gastown.yaml''
          \<and> commit_ok e (''[gastown] Claim task: '' @ tid)))
   \<and> (fst (claim e w tid force) = Completed \<longrightarrow>
      (\<exists>agent registry task registry'.
          agent_config e = Some agent \<and> get_context e w = Inr registry
          \<and> get_task registry tid = Some task
          \<and> registry_file (snd (claim e w tid force)) = Some (save_data registry')
          \<and> get_task registry' tid
                = Some (task\<lparr>status := CLAIMED, claimed_by := Some agent,
                             branch := Some (''agent/'' @ agent @ ''/'' @ tid)\<rparr>)))"
proof (cases "agent_config e")
  case None
  then show ?thesis by (simp add: claim_without_agent)
next
  case agent: (Some agent)
  show ?thesis
  proof (cases "get_context e w")
    case (Inl out)
    with agent get_context_not_completed [of e w] show ?thesis
      by (simp add: claim_without_context)
  next
    case reg: (Inr registry)
    show ?thesis
    proof (cases "get_task registry tid")
      case None
      with agent reg show ?thesis by (simp add: claim_without_task)
    next
      case task: (Some task)
      have iff: "fst (claim e w tid force) = Completed \<longleftrightarrow>
          status task = PENDING
          \<and> (check_dependencies registry task = [] \<or> force)
          \<and> (check_file_conflicts registry task = [] \<or> force)
          \<and> \<not> branch_exists e (claim_branch_name agent tid)
          \<and> switch_branch_ok e (get_default_branch e)
          \<and> create_branch_ok e (claim_branch_name agent tid)
          \<and> stage_file_ok e ''gastown.yaml''
          \<and> commit_ok e (''[gastown] Claim task: '' @ tid)"
        by (rule claim_completed_iff [OF agent reg task])
      have after: "get_task (assign_task registry (\<lambda>t. task_id t = tid)
                      (claimed agent (claim_branch_name agent tid))) tid
            = Some (task\<lparr>status := CLAIMED, claimed_by := Some agent,
                         branch := Some (''agent/'' @ agent @ ''/'' @ tid)\<rparr>)"
        by (simp add: get_task_claimed task claimed_def claim_branch_name_def)
      show ?thesis
      proof (intro conjI impI)
        show "fst (claim e w tid force) = Completed \<longleftrightarrow>
          (\<exists>agent registry task.
            agent_config e = Some agent \<and> get_context e w = Inr registry
            \<and> get_task registry tid = Some task \<and> status task = PENDING
            \<and> (check_dependencies registry task = [] \<or> force)
            \<and> (check_file_conflicts registry task = [] \<or> force)
            \<and> \<not> branch_exists e (claim_branch_name agent tid)
            \<and> switch_branch_ok e (get_default_branch e)
            \<and> create_branch_ok e (claim_branch_name agent tid)
            \<and> stage_file_ok e ''gastown.yaml''
            \<and> commit_ok e (''[gastown] Claim task: '' @ tid))"
          unfolding iff using agent reg task by simp
      next
        assume completed: "fst (claim e w tid force) = Completed"
        have "registry_file (snd (claim e w tid force))
               = Some (save_data (assign_task registry (\<lambda>t. task_id t = tid)
                                    (claimed agent (claim_branch_name agent tid))))"
          by (rule claim_completed_file [OF agent reg task completed])
        with agent reg task after
        show "\<exists>agent registry task registry'.
          agent_config e = Some agent \<and> get_context e w = Inr registry
          \<and> get_task registry tid = Some task
          \<and> registry_file (snd (claim e w tid force)) = Some (save_data registry')
          \<and> get_task registry' tid
                = Some (task\<lparr>status := CLAIMED, claimed_by := Some agent,
                             branch := Some (''agent/'' @ agent @ ''/'' @ tid)\<rparr>)"
          by blast
      qed
    qed
  qed
qed

lemma example_claim:
  "claim (example_env ''alice'' ''main'' []) (example_world PENDING None) ''t1'' False
     = (Completed,
        \<lparr>registry_file = Some (save_data (example_registry CLAIMED (Some ''alice''))),
         git_log = [Switched ''main'', BranchCreated ''agent/alice/t1'',
                    Staged ''gastown.yaml'', Committed ''[gastown] Claim task: t1'']\<rparr>)"
proof -
  have ctx: "get_context (example_env ''alice'' ''main'' []) (example_world PENDING None)
               = Inr (example_registry PENDING None)"
    by (simp add: example_context)
  show ?thesis
    unfolding claim_def ctx
    by (simp add: example_env_def example_registry_def example_world_def get_task_def
          mk_task_def check_dependencies_def check_file_conflicts_def branch_exists_def
          claim_branch_name_def get_default_branch_def has_remote_def log_effect_def
          save_def assign_task_def claimed_def Let_def)
qed

theorem claim_succeeds_iff_witness:
  "fst (claim (example_env ''alice'' ''main'' []) (example_world PENDING None) ''t1'' False)
     = Completed
   \<and> registry_file
        (snd (claim (example_env ''alice'' ''main'' []) (example_world PENDING None) ''t1'' False))
     = Some (save_data (example_registry CLAIMED (Some ''alice'')))"
  using claim_succeeds_iff
          [of "example_env ''alice'' ''main'' []" "example_world PENDING None" "''t1''" False]
  by (simp add: example_claim)

theorem claim_succeeds_iff_counterexample:
  "get_context branch_taken_env (example_world PENDING None)
     = Inr (example_registry PENDING None)
   \<and> get_task (example_registry PENDING None) ''t1''
       = Some (mk_task ''t1'' PENDING None [''src/a''] [])
   \<and> status (mk_task ''t1'' PENDING None [''src/a''] []) = PENDING
   \<and> check_dependencies (example_registry PENDING None)
        (mk_task ''t1'' PENDING None [''src/a''] []) = []
   \<and> check_file_conflicts (example_registry PENDING None)
        (mk_task ''t1'' PENDING None [''src/a''] []) = []
   \<and> claim branch_taken_env (example_world PENDING None) ''t1'' False
       = (Exit1 (BranchAlreadyExists ''agent/alice/t1''), example_world PENDING None)"
proof -
  have ctx: "get_context branch_taken_env (example_world PENDING None)
               = Inr (example_registry PENDING None)"
    by (simp add: get_context_def branch_taken_env_def example_env_def example_world_def
          load_data_save_data example_registry_def mk_task_def read_back_def)
  have rest: "get_task (example_registry PENDING None) ''t1''
       = Some (mk_task ''t1'' PENDING None [''src/a''] [])"
    "status (mk_task ''t1'' PENDING None [''src/a''] []) = PENDING"
    "check_dependencies (example_registry PENDING None)
        (mk_task ''t1'' PENDING None [''src/a''] []) = []"
    "check_file_conflicts (example_registry PENDING None)
        (mk_task ''t1'' PENDING None [''src/a''] []) = []"
    by (simp_all add: example_registry_def get_task_def mk_task_def check_dependencies_def
          check_file_conflicts_def)
  have "claim branch_taken_env (example_world PENDING None) ''t1'' False
       = (Exit1 (BranchAlreadyExists ''agent/alice/t1''), example_world PENDING None)"
    unfolding claim_def ctx
    by (simp add: rest Let_def branch_taken_env_def example_env_def branch_exists_def
          claim_branch_name_def)
  with ctx rest show ?thesis by simp
qed

subsection \<open>approve\<close>

lemma find_pr_None: "find_pr prs b = None \<longleftrightarrow> (\<forall>pr \<in> set prs. Some (pr_branch pr) \<noteq> b)"
  by (induction prs) auto

lemma find_pr_first:
  "find_pr prs b = Some pr \<Longrightarrow>
   \<exists>i < length prs. prs ! i = pr \<and> Some (pr_branch pr) = b
      \<and> (\<forall>j < i. Some (pr_branch (prs ! j)) \<noteq> b)"
proof (induction prs)
  case Nil
  then show ?case by simp
next
  case (Cons p prs)
  show ?case
  proof (cases "Some (pr_branch p) = b")
    case True
    with Cons.prems have "p = pr" by simp
    with True show ?thesis by (intro exI [of _ 0]) simp
  next
    case False
    with Cons obtain i where i: "i < length prs" "prs ! i = pr" "Some (pr_branch pr) = b"
      "\<forall>j < i. Some (pr_branch (prs ! j)) \<noteq> b"
      by auto
    show ?thesis
    proof (intro exI [of _ "Suc i"] conjI allI impI)
      fix j assume "j < Suc i"
      with i(4) False show "Some (pr_branch ((p # prs) ! j)) \<noteq> b"
        by (cases j) auto
    qed (use i in auto)
  qed
qed

lemma get_context_env_update [simp]:
  "get_context (e\<lparr>list_prs := l\<rparr>) w = get_context e w"
  "get_context (e\<lparr>approve_pr_ok := a\<rparr>) w = get_context e w"
  "get_context (e\<lparr>switch_branch_ok := sw\<rparr>) w = get_context e w"
  "get_context (e\<lparr>pull_ok := pl\<rparr>) w = get_context e w"
  "get_context (e\<lparr>stage_file_ok := sg\<rparr>) w = get_context e w"
  "get_context (e\<lparr>commit_ok := cm\<rparr>) w = get_context e w"
  "get_context (e\<lparr>push_ok := ps\<rparr>) w = get_context e w"
  "get_context (e\<lparr>merge_pr_ok := mg\<rparr>) w = get_context e w"
  "get_context (e\<lparr>rev_parse_verify := rv\<rparr>) w = get_context e w"
  by (simp_all add: get_context_def)

text \<open>
  C6. When the task that \<open>approve\<close> finds is in Review and its \<open>claimed_by\<close> is the name of
  the approving agent, the command ends with the self-approval error and changes nothing,
  whatever the list of pull requests and the approval call would answer.
\<close>

theorem approve_own_task_fails:
  assumes "agent_config e = Some agent" "get_context e w = Inr registry"
    "get_task registry tid = Some task" "status task = REVIEW" "claimed_by task = Some agent"
  shows "approve (e\<lparr>list_prs := prs, approve_pr_ok := ok\<rparr>) w tid = (Exit1 SelfApproval, w)"
  using assms by (simp add: approve_def)

theorem approve_own_task_fails_witness:
  "approve ((example_env ''alice'' ''main'' [])
              \<lparr>list_prs := (\<lambda>s. Some [example_pr]), approve_pr_ok := (\<lambda>n. True)\<rparr>)
           (example_world REVIEW (Some ''alice'')) ''t1''
     = (Exit1 SelfApproval, example_world REVIEW (Some ''alice''))"
  using approve_own_task_fails
          [where e = "example_env ''alice'' ''main'' []" and agent = "''alice''"
             and w = "example_world REVIEW (Some ''alice'')"
             and registry = "example_registry REVIEW (Some ''alice'')" and tid = "''t1''"
             and task = "mk_task ''t1'' REVIEW (Some ''alice'') [''src/a''] []"
             and prs = "\<lambda>s. Some [example_pr]" and ok = "\<lambda>n. True"]
  by (simp add: example_context)
     (simp add: example_env_def example_registry_def get_task_def mk_task_def)

subsection \<open>merge\<close>

lemma get_default_branch_env_update [simp]:
  "get_default_branch (e\<lparr>switch_branch_ok := sw\<rparr>) = get_default_branch e"
  "get_default_branch (e\<lparr>pull_ok := pl\<rparr>) = get_default_branch e"
  "get_default_branch (e\<lparr>stage_file_ok := sg\<rparr>) = get_default_branch e"
  "get_default_branch (e\<lparr>commit_ok := cm\<rparr>) = get_default_branch e"
  "get_default_branch (e\<lparr>push_ok := ps\<rparr>) = get_default_branch e"
  by (simp_all add: get_default_branch_def)

lemma get_task_merged:
  "get_task (assign_task reg (\<lambda>t. task_id t = tid) (\<lambda>t. t\<lparr>status := MERGED\<rparr>)) tid
     = map_option (\<lambda>t. t\<lparr>status := MERGED\<rparr>) (get_task reg tid)"
  by (rule get_task_assign_task) simp

lemma merge_task_no_list:
  assumes "agent_config e = Some agent" "get_context e w = Inr registry"
    "get_task registry tid = Some task" "status task = REVIEW" "list_prs e ''open'' = None"
  shows "merge_task e w tid = (Exit1 MergeFailed, w)"
  using assms by (simp add: merge_task_def)

lemma merge_task_no_match:
  assumes "agent_config e = Some agent" "get_context e w = Inr registry"
    "get_task registry tid = Some task" "status task = REVIEW"
    "list_prs e ''open'' = Some prs" "find_pr prs (branch task) = None"
  shows "merge_task e w tid = (Exit1 NoMatchingPR, w)"
  using assms by (simp add: merge_task_def)

lemma merge_task_refused:
  assumes "agent_config e = Some agent" "get_context e w = Inr registry"
    "get_task registry tid = Some task" "status task = REVIEW"
    "list_prs e ''open'' = Some prs" "find_pr prs (branch task) = Some pr"
    "\<not> merge_pr_ok e (pr_number pr)"
  shows "merge_task e w tid = (Exit1 MergeFailed, w)"
  using assms by (simp add: merge_task_def)

lemma merge_task_merged:
  assumes "agent_config e = Some agent" "get_context e w = Inr registry"
    "get_task registry tid = Some task" "status task = REVIEW"
    "list_prs e ''open'' = Some prs" "find_pr prs (branch task) = Some pr"
    "merge_pr_ok e (pr_number pr)"
  shows "registry_file (snd (merge_task e w tid))
           = Some (save_data (assign_task registry (\<lambda>t. task_id t = tid)
                                (\<lambda>t. t\<lparr>status := MERGED\<rparr>)))
         \<and> PRMerged (pr_number pr) \<in> set (git_log (snd (merge_task e w tid)))"
  using assms by (simp add: merge_task_def Let_def save_def log_effect_def)

text \<open>
  C7, as amended. For a task in Review and a list of open pull requests: the pull request
  used is the first of the list whose branch is the branch of the task; when there is none,
  and when the external merge of that pull request fails, \<open>merge_task\<close> ends with an error
  and changes nothing; when the external merge succeeds, the registry written has the task
  with status Merged, whatever the later switch, pull, stage, commit and push answer.
\<close>

theorem merge_task_outcomes:
  assumes "agent_config e = Some agent" "get_context e w = Inr registry"
    "get_task registry tid = Some task" "status task = REVIEW"
    "list_prs e ''open'' = Some prs"
  shows "(find_pr prs (branch task) = None \<longleftrightarrow>
            (\<forall>pr \<in> set prs. Some (pr_branch pr) \<noteq> branch task))
    \<and> (find_pr prs (branch task) = None \<longrightarrow> merge_task e w tid = (Exit1 NoMatchingPR, w))
    \<and> (\<forall>pr. find_pr prs (branch task) = Some pr \<longrightarrow>
          (\<exists>i < length prs. prs ! i = pr \<and> Some (pr_branch pr) = branch task
              \<and> (\<forall>j < i. Some (pr_branch (prs ! j)) \<noteq> branch task))
          \<and> (\<not> merge_pr_ok e (pr_number pr) \<longrightarrow> merge_task e w tid = (Exit1 MergeFailed, w))
          \<and> (merge_pr_ok e (pr_number pr) \<longrightarrow>
               registry_file
                 (snd (merge_task
                    (e\<lparr>switch_branch_ok := sw, pull_ok := pl, stage_file_ok := sg,
                       commit_ok := cm, push_ok := ps\<rparr>) w tid))
                 = Some (save_data (assign_task registry (\<lambda>t. task_id t = tid)
                                      (\<lambda>t. t\<lparr>status := MERGED\<rparr>)))
               \<and> get_task (assign_task registry (\<lambda>t. task_id t = tid)
                              (\<lambda>t. t\<lparr>status := MERGED\<rparr>)) tid
                   = Some (task\<lparr>status := MERGED\<rparr>)))"
proof (intro conjI allI impI)
  show "find_pr prs (branch task) = None \<longleftrightarrow>
          (\<forall>pr \<in> set prs. Some (pr_branch pr) \<noteq> branch task)"
    by (rule find_pr_None)
next
  assume "find_pr prs (branch task) = None"
  with assms show "merge_task e w tid = (Exit1 NoMatchingPR, w)"
    by (rule merge_task_no_match)
next
  fix pr assume "find_pr prs (branch task) = Some pr"
  then show "\<exists>i < length prs. prs ! i = pr \<and> Some (pr_branch pr) = branch task
              \<and> (\<forall>j < i. Some (pr_branch (prs ! j)) \<noteq> branch task)"
    by (rule find_pr_first)
next
  fix pr assume "find_pr prs (branch task) = Some pr" "\<not> merge_pr_ok e (pr_number pr)"
  with assms show "merge_task e w tid = (Exit1 MergeFailed, w)"
    by (rule merge_task_refused)
next
  fix pr assume pr: "find_pr prs (branch task) = Some pr" "merge_pr_ok e (pr_number pr)"
  let ?e = "e\<lparr>switch_branch_ok := sw, pull_ok := pl, stage_file_ok := sg,
               commit_ok := cm, push_ok := ps\<rparr>"
  have "agent_config ?e = Some agent" "get_context ?e w = Inr registry"
    "list_prs ?e ''open'' = Some prs" "merge_pr_ok ?e (pr_number pr)"
    using assms pr by simp_all
  from merge_task_merged [OF this(1,2) assms(3,4) this(3) pr(1) this(4)]
  show "registry_file (snd (merge_task ?e w tid))
          = Some (save_data (assign_task registry (\<lambda>t. task_id t = tid)
                               (\<lambda>t. t\<lparr>status := MERGED\<rparr>)))"
    by simp
next
  show "get_task (assign_task registry (\<lambda>t. task_id t = tid)
                    (\<lambda>t. t\<lparr>status := MERGED\<rparr>)) tid
          = Some (task\<lparr>status := MERGED\<rparr>)"
    by (simp add: get_task_merged assms(3))
qed

theorem merge_task_outcomes_witness:
  "registry_file
     (snd (merge_task
        ((example_env ''bob'' ''main'' [example_pr])
           \<lparr>switch_branch_ok := (\<lambda>b. True), pull_ok := False, stage_file_ok := (\<lambda>p. True),
             commit_ok := (\<lambda>m. True), push_ok := (\<lambda>b u. False)\<rparr>)
        (example_world REVIEW (Some ''alice'')) ''t1''))
     = Some (save_data (example_registry MERGED (Some ''alice'')))"
  using merge_task_outcomes
          [where e = "example_env ''bob'' ''main'' [example_pr]" and agent = "''bob''"
             and w = "example_world REVIEW (Some ''alice'')"
             and registry = "example_registry REVIEW (Some ''alice'')" and tid = "''t1''"
             and task = "mk_task ''t1'' REVIEW (Some ''alice'') [''src/a''] []"
             and prs = "[example_pr]"
             and sw = "\<lambda>b. True" and pl = False and sg = "\<lambda>p. True"
             and cm = "\<lambda>m. True" and ps = "\<lambda>b u. False"]
  by (simp add: example_context)
     (simp add: example_env_def example_registry_def get_task_def mk_task_def example_pr_def
        assign_task_def)

theorem merge_task_outcomes_counterexample:
  "get_context merge_refused_env (example_world REVIEW (Some ''alice''))
     = Inr (example_registry REVIEW (Some ''alice''))
   \<and> get_task (example_registry REVIEW (Some ''alice'')) ''t1''
       = Some (mk_task ''t1'' REVIEW (Some ''alice'') [''src/a''] [])
   \<and> list_prs merge_refused_env ''open'' = Some [example_pr]
   \<and> find_pr [example_pr] (branch (mk_task ''t1'' REVIEW (Some ''alice'') [''src/a''] []))
       = Some example_pr
   \<and> merge_task merge_refused_env (example_world REVIEW (Some ''alice'')) ''t1''
       = (Exit1 MergeFailed, example_world REVIEW (Some ''alice''))"
proof -
  have ctx: "get_context merge_refused_env (example_world REVIEW (Some ''alice''))
     = Inr (example_registry REVIEW (Some ''alice''))"
    by (simp add: merge_refused_env_def example_context)
  have rest: "get_task (example_registry REVIEW (Some ''alice'')) ''t1''
       = Some (mk_task ''t1'' REVIEW (Some ''alice'') [''src/a''] [])"
    "list_prs merge_refused_env ''open'' = Some [example_pr]"
    "find_pr [example_pr] (branch (mk_task ''t1'' REVIEW (Some ''alice'') [''src/a''] []))
       = Some example_pr"
    by (simp_all add: example_registry_def get_task_def mk_task_def merge_refused_env_def
          example_env_def example_pr_def)
  have "merge_task merge_refused_env (example_world REVIEW (Some ''alice'')) ''t1''
       = (Exit1 MergeFailed, example_world REVIEW (Some ''alice''))"
  proof (rule merge_task_refused [OF _ ctx rest(1) _ rest(2,3)])
    show "agent_config merge_refused_env = Some ''bob''"
      by (simp add: merge_refused_env_def example_env_def)
    show "status (mk_task ''t1'' REVIEW (Some ''alice'') [''src/a''] []) = REVIEW"
      by (simp add: mk_task_def)
    show "\<not> merge_pr_ok merge_refused_env (pr_number example_pr)"
      by (simp add: merge_refused_env_def)
  qed
  with ctx rest show ?thesis by simp
qed


subsection \<open>submit\<close>

lemma find_task_for_branch_update_first:
  assumes "\<And>t. branch (f t) = branch t"
  shows "find_task_for_branch (update_first (\<lambda>t. branch t = Some b) f ts) b
           = map_option f (find_task_for_branch ts b)"
  using assms by (induction ts) simp_all

lemma submit_push_failed:
  assumes "agent_config e = Some agent" "get_context e w = Inr registry"
    "current_branch e = Some cur" "cur \<noteq> get_default_branch e"
    "find_task_for_branch (tasks registry) cur = Some task" "claimed_by task = Some agent"
    "has_remote e \<longrightarrow> fetch_ok e \<and> is_rebased e (''origin/'' @ get_default_branch e) = Some True"
    "\<not> push_ok e cur True"
  shows "submit e w title body
           = (Exit1 PushFailed, if has_remote e then log_effect Fetched w else w)"
  using assms by (cases "has_remote e") (simp_all add: submit_def Let_def)

lemma submit_after_push:
  assumes "agent_config e = Some agent" "get_context e w = Inr registry"
    "current_branch e = Some cur" "cur \<noteq> get_default_branch e"
    "find_task_for_branch (tasks registry) cur = Some task" "claimed_by task = Some agent"
    "has_remote e \<longrightarrow> fetch_ok e \<and> is_rebased e (''origin/'' @ get_default_branch e) = Some True"
    "push_ok e cur True"
  shows "registry_file (snd (submit e w title body))
           = Some (save_data (assign_task registry (\<lambda>t. branch t = Some cur)
                                (\<lambda>t. t\<lparr>status := REVIEW\<rparr>)))"
    and "stage_file_ok e ''gastown.yaml'' \<Longrightarrow>
         commit_ok e (''[gastown] Submit task for review: '' @ task_id task) \<Longrightarrow>
         Committed (''[gastown] Submit task for review: '' @ task_id task)
           \<in> set (git_log (snd (submit e w title body)))"
    and "stage_file_ok e ''gastown.yaml'' \<Longrightarrow>
         commit_ok e (''[gastown] Submit task for review: '' @ task_id task) \<Longrightarrow>
         push_ok e cur False \<Longrightarrow> fst (submit e w title body) = Completed"
  using assms
  by (cases "has_remote e";
      simp add: submit_def Let_def save_def log_effect_def split: option.splits)+

lemma get_context_create_pr [simp]:
  "get_context (e\<lparr>create_pr := cp\<rparr>) w = get_context e w"
  by (simp add: get_context_def)

lemma env_create_pr [simp]:
  "get_default_branch (e\<lparr>create_pr := cp\<rparr>) = get_default_branch e"
  "has_remote (e\<lparr>create_pr := cp\<rparr>) = has_remote e"
  by (simp_all add: get_default_branch_def has_remote_def)

lemma submit_checked_ignores_create_pr:
  assumes "agent_config e = Some agent" "get_context e w = Inr registry"
    "current_branch e = Some cur" "cur \<noteq> get_default_branch e"
    "find_task_for_branch (tasks registry) cur = Some task" "claimed_by task = Some agent"
    "has_remote e \<longrightarrow> fetch_ok e \<and> is_rebased e (''origin/'' @ get_default_branch e) = Some True"
    "push_ok e cur True"
  shows "fst (submit (e\<lparr>create_pr := cp\<rparr>) w title body) = fst (submit e w title body)"
    and "registry_file (snd (submit (e\<lparr>create_pr := cp\<rparr>) w title body))
       = registry_file (snd (submit e w title body))"
    and "filter (\<lambda>x. \<not> is_pr_created x) (git_log (snd (submit (e\<lparr>create_pr := cp\<rparr>) w title body)))
       = filter (\<lambda>x. \<not> is_pr_created x) (git_log (snd (submit e w title body)))"
proof -
  let ?T = "or_default title (default_pr_title task)"
  let ?B = "or_default body (default_pr_body task agent)"
  let ?D = "get_default_branch e"
  let ?w2 = "log_effect (Pushed cur True) (if has_remote e then log_effect Fetched w else w)"
  define fin where "fin = (\<lambda>w3.
     let w4 = save (assign_task registry (\<lambda>t. branch t = Some cur) (\<lambda>t. t\<lparr>status := REVIEW\<rparr>)) w3 in
     if \<not> stage_file_ok e ''gastown.yaml'' then (Uncaught GitError, w4)
     else let w5 = log_effect (Staged ''gastown.yaml'') w4;
              msg = ''[gastown] Submit task for review: '' @ task_id task in
     if \<not> commit_ok e msg then (Uncaught GitError, w5)
     else let w6 = log_effect (Committed msg) w5 in
     if \<not> push_ok e cur False then (Uncaught GitError, w6)
     else (Completed, log_effect (Pushed cur False) w6))"
  have val: "submit e w title body
      = fin (case create_pr e ?T ?B ?D of None \<Rightarrow> ?w2
             | Some pr \<Rightarrow> log_effect (PRCreated ?T ?B ?D) ?w2)"
    using assms by (cases "has_remote e") (simp_all add: submit_def fin_def Let_def)
  have val': "submit (e\<lparr>create_pr := cp\<rparr>) w title body
      = fin (case cp ?T ?B ?D of None \<Rightarrow> ?w2
             | Some pr \<Rightarrow> log_effect (PRCreated ?T ?B ?D) ?w2)"
    using assms by (cases "has_remote e") (simp_all add: submit_def fin_def Let_def)
  have fin_log: "fst (fin (log_effect (PRCreated ?T ?B ?D) ?w2)) = fst (fin ?w2)
     \<and> registry_file (snd (fin (log_effect (PRCreated ?T ?B ?D) ?w2)))
        = registry_file (snd (fin ?w2))
     \<and> filter (\<lambda>x. \<not> is_pr_created x) (git_log (snd (fin (log_effect (PRCreated ?T ?B ?D) ?w2))))
        = filter (\<lambda>x. \<not> is_pr_created x) (git_log (snd (fin ?w2)))"
    by (simp add: fin_def Let_def save_def log_effect_def)
  show "fst (submit (e\<lparr>create_pr := cp\<rparr>) w title body) = fst (submit e w title body)"
    unfolding val val' using fin_log
    by (cases "create_pr e ?T ?B ?D"; cases "cp ?T ?B ?D") simp_all
  show "registry_file (snd (submit (e\<lparr>create_pr := cp\<rparr>) w title body))
       = registry_file (snd (submit e w title body))"
    unfolding val val' using fin_log
    by (cases "create_pr e ?T ?B ?D"; cases "cp ?T ?B ?D") simp_all
  show "filter (\<lambda>x. \<not> is_pr_created x) (git_log (snd (submit (e\<lparr>create_pr := cp\<rparr>) w title body)))
       = filter (\<lambda>x. \<not> is_pr_created x) (git_log (snd (submit e w title body)))"
    unfolding val val' using fin_log
    by (cases "create_pr e ?T ?B ?D"; cases "cp ?T ?B ?D") simp_all
qed

text \<open>
  C8, as amended. Once the checks of \<open>submit\<close> have passed: when the push of the branch
  succeeds and the creation of the pull request fails, the registry is still written with
  the task in Review; it is committed provided staging and committing \<open>gastown.yaml\<close>
  themselves succeed (the command completes when the last push does too). After a
  successful push the command ends the same way, writes the same registry and leaves the
  same log apart from the entry of the pull request, whatever the creation of the pull
  request answers. When the push of the branch fails, the command ends with an error before
  the pull request is tried, the registry file is unchanged and nothing is committed.
\<close>

theorem submit_pr_failure_not_fatal:
  assumes "agent_config e = Some agent" "get_context e w = Inr registry"
    "current_branch e = Some cur" "cur \<noteq> get_default_branch e"
    "find_task_for_branch (tasks registry) cur = Some task" "claimed_by task = Some agent"
    "has_remote e \<longrightarrow> fetch_ok e \<and> is_rebased e (''origin/'' @ get_default_branch e) = Some True"
  shows "(push_ok e cur True
          \<and> create_pr e (or_default title (default_pr_title task))
               (or_default body (default_pr_body task agent)) (get_default_branch e) = None
          \<longrightarrow>
            registry_file (snd (submit e w title body))
              = Some (save_data (assign_task registry (\<lambda>t. branch t = Some cur)
                                   (\<lambda>t. t\<lparr>status := REVIEW\<rparr>)))
            \<and> find_task_for_branch
                 (tasks (assign_task registry (\<lambda>t. branch t = Some cur)
                           (\<lambda>t. t\<lparr>status := REVIEW\<rparr>))) cur
                = Some (task\<lparr>status := REVIEW\<rparr>)
            \<and> (stage_file_ok e ''gastown.yaml''
                \<and> commit_ok e (''[gastown] Submit task for review: '' @ task_id task)
                \<longrightarrow> Committed (''[gastown] Submit task for review: '' @ task_id task)
                      \<in> set (git_log (snd (submit e w title body)))
                    \<and> (push_ok e cur False \<longrightarrow> fst (submit e w title body) = Completed)))
    \<and> (push_ok e cur True
          \<longrightarrow> fst (submit (e\<lparr>create_pr := cp\<rparr>) w title body) = fst (submit e w title body)
              \<and> registry_file (snd (submit (e\<lparr>create_pr := cp\<rparr>) w title body))
                  = registry_file (snd (submit e w title body))
              \<and> filter (\<lambda>x. \<not> is_pr_created x)
                    (git_log (snd (submit (e\<lparr>create_pr := cp\<rparr>) w title body)))
                  = filter (\<lambda>x. \<not> is_pr_created x) (git_log (snd (submit e w title body))))
    \<and> (\<not> push_ok e cur True
          \<longrightarrow> fst (submit e w title body) = Exit1 PushFailed
              \<and> registry_file (snd (submit e w title body)) = registry_file w
              \<and> (\<forall>m. Committed m \<in> set (git_log (snd (submit e w title body)))
                      \<longrightarrow> Committed m \<in> set (git_log w)))"
proof (intro conjI impI allI)
  assume "push_ok e cur True
          \<and> create_pr e (or_default title (default_pr_title task))
               (or_default body (default_pr_body task agent)) (get_default_branch e) = None"
  then have pushed: "push_ok e cur True" by simp
  show "registry_file (snd (submit e w title body))
          = Some (save_data (assign_task registry (\<lambda>t. branch t = Some cur)
                               (\<lambda>t. t\<lparr>status := REVIEW\<rparr>)))"
    by (rule submit_after_push(1) [OF assms pushed])
  show "find_task_for_branch
          (tasks (assign_task registry (\<lambda>t. branch t = Some cur)
                    (\<lambda>t. t\<lparr>status := REVIEW\<rparr>))) cur
          = Some (task\<lparr>status := REVIEW\<rparr>)"
    by (simp add: assign_task_def find_task_for_branch_update_first assms(5))
  {
    assume ok: "stage_file_ok e ''gastown.yaml''
                \<and> commit_ok e (''[gastown] Submit task for review: '' @ task_id task)"
    show "Committed (''[gastown] Submit task for review: '' @ task_id task)
            \<in> set (git_log (snd (submit e w title body)))"
      using submit_after_push(2) [OF assms pushed] ok by simp
    assume "push_ok e cur False"
    then show "fst (submit e w title body) = Completed"
      using submit_after_push(3) [OF assms pushed] ok by simp
  }
next
  assume pushed: "push_ok e cur True"
  show "fst (submit (e\<lparr>create_pr := cp\<rparr>) w title body) = fst (submit e w title body)"
    by (rule submit_checked_ignores_create_pr(1) [OF assms pushed])
  show "registry_file (snd (submit (e\<lparr>create_pr := cp\<rparr>) w title body))
          = registry_file (snd (submit e w title body))"
    by (rule submit_checked_ignores_create_pr(2) [OF assms pushed])
  show "filter (\<lambda>x. \<not> is_pr_created x)
          (git_log (snd (submit (e\<lparr>create_pr := cp\<rparr>) w title body)))
          = filter (\<lambda>x. \<not> is_pr_created x) (git_log (snd (submit e w title body)))"
    by (rule submit_checked_ignores_create_pr(3) [OF assms pushed])
next
  assume failed: "\<not> push_ok e cur True"
  have r: "submit e w title body
             = (Exit1 PushFailed, if has_remote e then log_effect Fetched w else w)"
    by (rule submit_push_failed [OF assms failed])
  show "fst (submit e w title body) = Exit1 PushFailed"
    by (simp add: r)
  show "registry_file (snd (submit e w title body)) = registry_file w"
    by (simp add: r log_effect_def)
  fix m assume "Committed m \<in> set (git_log (snd (submit e w title body)))"
  then show "Committed m \<in> set (git_log w)"
    by (simp add: r log_effect_def split: if_splits)
qed

lemma remote_context:
  "owner \<noteq> Some '''' \<Longrightarrow>
   get_context (remote_env agent cur prs) (example_world st owner)
     = Inr (example_registry st owner)"
  using example_context [of owner agent cur prs st]
  by (simp add: remote_env_def get_context_def)

lemma example_submit:
  "owner = Some ''alice'' \<Longrightarrow>
   submit (remote_env ''alice'' ''agent/alice/t1'' []) (example_world st owner) None None
     = (Completed,
        \<lparr>registry_file = Some (save_data (example_registry REVIEW owner)),
         git_log = [Fetched, Pushed ''agent/alice/t1'' True, Staged ''gastown.yaml'',
                    Committed ''[gastown] Submit task for review: t1'',
                    Pushed ''agent/alice/t1'' False]\<rparr>)"
proof -
  assume owner: "owner = Some ''alice''"
  have ctx: "get_context (remote_env ''alice'' ''agent/alice/t1'' []) (example_world st owner)
               = Inr (example_registry st owner)"
    by (simp add: remote_context owner)
  show ?thesis
    unfolding submit_def ctx
    by (simp add: owner remote_env_def example_env_def example_registry_def example_world_def
          mk_task_def get_default_branch_def has_remote_def log_effect_def
          save_def assign_task_def Let_def)
qed

theorem submit_pr_failure_not_fatal_witness:
  "registry_file
     (snd (submit (remote_env ''alice'' ''agent/alice/t1'' [])
             (example_world CLAIMED (Some ''alice'')) None None))
     = Some (save_data (example_registry REVIEW (Some ''alice'')))
   \<and> Committed ''[gastown] Submit task for review: t1''
       \<in> set (git_log
                (snd (submit (remote_env ''alice'' ''agent/alice/t1'' [])
                        (example_world CLAIMED (Some ''alice'')) None None)))"
  using submit_pr_failure_not_fatal
          [where e = "remote_env ''alice'' ''agent/alice/t1'' []" and agent = "''alice''"
             and w = "example_world CLAIMED (Some ''alice'')"
             and registry = "example_registry CLAIMED (Some ''alice'')"
             and cur = "''agent/alice/t1''"
             and task = "mk_task ''t1'' CLAIMED (Some ''alice'') [''src/a''] []"
             and title = None and body = None]
  by (simp add: example_submit)

theorem submit_pr_failure_not_fatal_counterexample:
  "create_pr stage_refused_env
       (default_pr_title (mk_task ''t1'' CLAIMED (Some ''alice'') [''src/a''] []))
       (default_pr_body (mk_task ''t1'' CLAIMED (Some ''alice'') [''src/a''] []) ''alice'')
       ''main''
     = None
   \<and> submit stage_refused_env (example_world CLAIMED (Some ''alice'')) None None
     = (Uncaught GitError,
        \<lparr>registry_file = Some (save_data (example_registry REVIEW (Some ''alice''))),
         git_log = [Fetched, Pushed ''agent/alice/t1'' True]\<rparr>)"
proof -
  have ctx: "get_context stage_refused_env (example_world CLAIMED (Some ''alice''))
               = Inr (example_registry CLAIMED (Some ''alice''))"
    using remote_context [of "Some ''alice''" "''alice''" "''agent/alice/t1''" "[]" CLAIMED]
    by (simp add: stage_refused_env_def)
  have "submit stage_refused_env (example_world CLAIMED (Some ''alice'')) None None
     = (Uncaught GitError,
        \<lparr>registry_file = Some (save_data (example_registry REVIEW (Some ''alice''))),
         git_log = [Fetched, Pushed ''agent/alice/t1'' True]\<rparr>)"
    unfolding submit_def ctx
    by (simp add: stage_refused_env_def remote_env_def example_env_def example_registry_def
          example_world_def mk_task_def get_default_branch_def has_remote_def log_effect_def
          save_def assign_task_def Let_def)
  then show ?thesis
    by (simp add: stage_refused_env_def remote_env_def example_env_def)
qed

subsection \<open>The order of the statuses\<close>

lemma update_first_forward:
  assumes "get_task_loop ts tid = Some task" "task_id (f task) = task_id task"
    "status_rank (status task) \<le> status_rank (status (f task))"
  shows "list_all2 (\<lambda>t t'. task_id t = task_id t' \<and> status_rank (status t) \<le> status_rank (status t'))
           ts (update_first (\<lambda>t. task_id t = tid) f ts)"
  using assms
proof (induction ts)
  case Nil
  then show ?case by simp
next
  case (Cons t ts)
  show ?case
  proof (cases "task_id t = tid")
    case True
    with Cons.prems show ?thesis by (simp add: list_all2_refl)
  next
    case False
    with Cons show ?thesis by simp
  qed
qed

lemma assign_task_forward:
  assumes "get_task reg tid = Some task" "task_id (f task) = task_id task"
    "status_rank (status task) \<le> status_rank (status (f task))"
  shows "never_backward reg (assign_task reg (\<lambda>t. task_id t = tid) f)"
  using assms by (simp add: never_backward_def assign_task_def get_task_def update_first_forward)

lemma approve_keeps_registry: "registry_file (snd (approve e w tid)) = registry_file w"
  by (simp add: approve_def log_effect_def split: option.splits sum.splits)

lemma claim_never_backward:
  assumes "get_context e w = Inr registry"
  shows "registry_file (snd (claim e w tid force)) = registry_file w
         \<or> (\<exists>registry'. registry_file (snd (claim e w tid force)) = Some (save_data registry')
               \<and> never_backward registry registry')"
proof (cases "agent_config e")
  case None
  then show ?thesis by (simp add: claim_def)
next
  case agent: (Some agent)
  show ?thesis
  proof (cases "get_task registry tid")
    case None
    with agent assms show ?thesis by (simp add: claim_def)
  next
    case task: (Some task)
    have fwd: "status task = PENDING \<Longrightarrow>
        never_backward registry
          (assign_task registry (\<lambda>t. task_id t = tid) (claimed agent (claim_branch_name agent tid)))"
      by (rule assign_task_forward [OF task]) (simp_all add: claimed_def)
    with agent assms task show ?thesis
      by (auto simp: claim_def Let_def save_def log_effect_def)
  qed
qed

lemma merge_task_never_backward:
  assumes "get_context e w = Inr registry"
  shows "registry_file (snd (merge_task e w tid)) = registry_file w
         \<or> (\<exists>registry'. registry_file (snd (merge_task e w tid)) = Some (save_data registry')
               \<and> never_backward registry registry')"
proof (cases "agent_config e")
  case None
  then show ?thesis by (simp add: merge_task_def)
next
  case agent: (Some agent)
  show ?thesis
  proof (cases "get_task registry tid")
    case None
    with agent assms show ?thesis by (simp add: merge_task_def)
  next
    case task: (Some task)
    have fwd: "never_backward registry
          (assign_task registry (\<lambda>t. task_id t = tid) (\<lambda>t. t\<lparr>status := MERGED\<rparr>))"
      by (rule assign_task_forward [OF task]) (cases "status task"; simp)+
    with agent assms task show ?thesis
      by (auto simp: merge_task_def Let_def save_def log_effect_def split: option.splits)
  qed
qed

text \<open>
  C2 fails on \<open>submit\<close>. \<open>claim\<close>, \<open>approve\<close> and \<open>merge_task\<close> test the status of the task
  before they assign it (the three lemmas above); \<open>submit\<close> has no such test and assigns
  Review to whatever task carries the current branch. On a registry whose task \<open>t1\<close> is
  Merged, claimed by alice on the branch \<open>agent/alice/t1\<close>, with a remote that is fetched
  and onto whose default branch the branch is rebased, \<open>submit\<close> run by alice on that
  branch completes and writes the task back as Review.
\<close>

theorem submit_reopens_merged_task:
  "has_remote (remote_env ''alice'' ''agent/alice/t1'' [])
   \<and> get_context (remote_env ''alice'' ''agent/alice/t1'' [])
       (example_world MERGED (Some ''alice''))
     = Inr (example_registry MERGED (Some ''alice''))
   \<and> submit (remote_env ''alice'' ''agent/alice/t1'' [])
        (example_world MERGED (Some ''alice'')) None None
     = (Completed,
        \<lparr>registry_file = Some (save_data (example_registry REVIEW (Some ''alice''))),
         git_log = [Fetched, Pushed ''agent/alice/t1'' True, Staged ''gastown.yaml'',
                    Committed ''[gastown] Submit task for review: t1'',
                    Pushed ''agent/alice/t1'' False]\<rparr>)
   \<and> \<not> never_backward (example_registry MERGED (Some ''alice''))
         (example_registry REVIEW (Some ''alice''))"
  by (simp add: remote_context example_submit)
     (simp add: never_backward_def example_registry_def mk_task_def has_remote_def
        remote_env_def)

end
